theory Spec2Isabelle
  imports
    Complex_Main
    "HOL-Library.AList"
    "HOL-Library.Log_Nat"
    "HOL-Library.Multiset"
    "HOL-Library.Product_Lexorder"
begin

section \<open>Python values shared by the tasks\<close>

subsection \<open>Text\<close>

text \<open>
  A Python \<open>str\<close> is a sequence of code points. It is modelled as a \<open>string\<close> whose
  characters stand for the code points 0..255 (ASCII and the Latin-1 block), one
  \<open>char\<close> per code point; the no-break space U+00A0 is \<open>CHR 0xA0\<close>.
\<close>

definition NBSP :: char where
  "NBSP = CHR 0xA0"

text \<open>
  \<open>str.isspace\<close> for one code point below 256: TAB, LF, VT, FF, CR, the separators
  FS, GS, RS, US, the space, NEL (0x85) and the no-break space (0xA0).
\<close>

definition py_isspace :: "char \<Rightarrow> bool" where
  "py_isspace c = (c \<in> set [CHR 0x09, CHR 0x0A, CHR 0x0B, CHR 0x0C, CHR 0x0D,
                             CHR 0x1C, CHR 0x1D, CHR 0x1E, CHR 0x1F, CHR 0x20,
                             CHR 0x85, CHR 0xA0])"

text \<open>\<open>s.strip()\<close>: drop the whitespace at both ends.\<close>

definition strip :: "string \<Rightarrow> string" where
  "strip s = rev (dropWhile py_isspace (rev (dropWhile py_isspace s)))"

text \<open>\<open>s.replace(old, new)\<close> for a single character \<open>old\<close>.\<close>

definition replace_char :: "char \<Rightarrow> string \<Rightarrow> string \<Rightarrow> string" where
  "replace_char old new s = concat (map (\<lambda>c. if c = old then new else [c]) s)"

text \<open>
  \<open>s.replace(old, new)\<close> for a non-empty \<open>old\<close>: the occurrences are found from the
  left and do not overlap.
\<close>

fun replace_str :: "string \<Rightarrow> string \<Rightarrow> string \<Rightarrow> string" where
  "replace_str old new [] = []"
| "replace_str old new (c # cs) =
     (if old \<noteq> [] \<and> take (length old) (c # cs) = old
      then new @ replace_str old new (drop (length old) (c # cs))
      else c # replace_str old new cs)"

text \<open>\<open>sub in s\<close>: \<open>sub\<close> occurs as a contiguous run of \<open>s\<close>.\<close>

fun contains :: "string \<Rightarrow> string \<Rightarrow> bool" where
  "contains sub [] = (sub = [])"
| "contains sub (c # cs) = (take (length sub) (c # cs) = sub \<or> contains sub cs)"

text \<open>Decimal rendering of a non-negative integer, as \<open>str(n)\<close> and \<open>{n}\<close> give it.\<close>

definition digit_char :: "nat \<Rightarrow> char" where
  "digit_char d = ''0123456789'' ! (d mod 10)"

fun dec_nat :: "nat \<Rightarrow> string" where
  "dec_nat n = (if n < 10 then [digit_char n] else dec_nat (n div 10) @ [digit_char (n mod 10)])"

declare dec_nat.simps [simp del]

definition dec_int :: "int \<Rightarrow> string" where
  "dec_int i = (if i < 0 then ''-'' @ dec_nat (nat (- i)) else dec_nat (nat i))"

text \<open>\<open>{n:02d}\<close> for a non-negative \<open>n\<close>: at least two digits, padded with a zero.\<close>

definition pad2 :: "nat \<Rightarrow> string" where
  "pad2 n = (if n < 10 then CHR ''0'' # dec_nat n else dec_nat n)"

subsection \<open>Calendar dates and timestamps\<close>

text \<open>
  A \<open>datetime.date\<close> is the triple (year, month, day); Python compares dates
  lexicographically on that triple, which is the order of the product type.
\<close>

type_synonym date = "nat \<times> nat \<times> nat"

record datetime =
  dt_year :: nat
  dt_month :: nat
  dt_day :: nat
  dt_hour :: nat
  dt_minute :: nat
  dt_second :: nat
  dt_microsecond :: nat
  dt_utcoffset :: "int option"

text \<open>\<open>dt.date()\<close>: the wall-clock date, whatever the zone.\<close>

definition date_of :: "datetime \<Rightarrow> date" where
  "date_of t = (dt_year t, dt_month t, dt_day t)"

text \<open>\<open>datetime(y, m, d)\<close>: midnight, no zone.\<close>

definition mk_datetime :: "nat \<Rightarrow> nat \<Rightarrow> nat \<Rightarrow> datetime" where
  "mk_datetime y m d =
     \<lparr>dt_year = y, dt_month = m, dt_day = d, dt_hour = 0, dt_minute = 0, dt_second = 0,
      dt_microsecond = 0, dt_utcoffset = None\<rparr>"

subsection \<open>Floating-point numbers\<close>

text \<open>
  A Python \<open>float\<close> is an IEEE 754 binary64 value. A finite one is represented by the
  rational number it denotes, \<open>Finite 0\<close> being the positive zero; the negative zero
  \<open>-0.0\<close> is a value of its own, beside the two infinities and NaN. Every arithmetic
  result is the exact result rounded to the nearest binary64 value, ties to the even
  significand, as the hardware does it.
\<close>

datatype pyfloat = Finite rat | NegZero | PosInf | NegInf | NaN

text \<open>Rounding to the nearest integer, ties to the even one (Python's \<open>round(x)\<close>).\<close>

definition round_half_even :: "rat \<Rightarrow> int" where
  "round_half_even q =
     (let f = \<lfloor>q\<rfloor>; r = q - of_int f
      in if r < 1 / 2 then f else if 1 / 2 < r then f + 1 else if even f then f else f + 1)"

text \<open>
  For \<open>q > 0\<close>: the exponent \<open>e\<close> with \<open>2 ^ e \<le> q < 2 ^ (e + 1)\<close>, from the bit lengths of
  the numerator and the denominator.
\<close>

definition floor_log2 :: "rat \<Rightarrow> int" where
  "floor_log2 q =
     (case quotient_of q of (p, d) \<Rightarrow>
        let e0 = bitlen p - bitlen d
        in if 2 powi e0 \<le> q then e0 else e0 - 1)"

text \<open>
  The binary64 value nearest to a rational: 53 significant bits, the least exponent of
  the subnormal range is \<open>-1074\<close>, a result of \<open>2 ^ 1024\<close> or more overflows to an
  infinity, and a negative number that rounds to zero gives the negative zero.
\<close>

definition to_double :: "rat \<Rightarrow> pyfloat" where
  "to_double q =
     (if q = 0 then Finite 0
      else let a = \<bar>q\<bar>;
               e = floor_log2 a;
               qe = max (e - 52) (- 1074);
               m = round_half_even (a / 2 powi qe);
               r = of_int m * 2 powi qe
           in if of_int (2 ^ 1024) \<le> r then (if q < 0 then NegInf else PosInf)
              else if q < 0 then (if r = 0 then NegZero else Finite (- r))
              else Finite r)"

text \<open>
  \<open>x + y\<close> on floats; the sum of two negative zeros is the negative zero, and a negative
  zero added to another value leaves that value (a zero sum of other values is positive).
\<close>

fun float_add :: "pyfloat \<Rightarrow> pyfloat \<Rightarrow> pyfloat" where
  "float_add (Finite a) (Finite b) = to_double (a + b)"
| "float_add NegZero NegZero = NegZero"
| "float_add NegZero (Finite b) = to_double b"
| "float_add (Finite a) NegZero = to_double a"
| "float_add NaN _ = NaN"
| "float_add _ NaN = NaN"
| "float_add PosInf NegInf = NaN"
| "float_add NegInf PosInf = NaN"
| "float_add PosInf _ = PosInf"
| "float_add _ PosInf = PosInf"
| "float_add NegInf _ = NegInf"
| "float_add _ NegInf = NegInf"

text \<open>\<open>x / d\<close> for a float \<open>x\<close> and a finite divisor \<open>d > 0\<close> (here \<open>1000.0\<close> or a length).\<close>

fun float_div :: "pyfloat \<Rightarrow> rat \<Rightarrow> pyfloat" where
  "float_div (Finite a) d = to_double (a / d)"
| "float_div x d = x"

text \<open>
  \<open>f"{x:.2f}"\<close>: the exact value rounded to two decimals (ties to even), a minus sign for a
  negative value and for the negative zero, at least one integer digit; the infinities and
  NaN have no digits.
\<close>

fun format_2f :: "pyfloat \<Rightarrow> string" where
  "format_2f (Finite q) =
     (let n = nat (round_half_even (\<bar>q\<bar> * 100))
      in (if q < 0 then ''-'' else []) @ dec_nat (n div 100) @ ''.'' @ pad2 (n mod 100))"
| "format_2f NegZero = ''-0.00''"
| "format_2f PosInf = ''inf''"
| "format_2f NegInf = ''-inf''"
| "format_2f NaN = ''nan''"

subsection \<open>Exceptions\<close>

text \<open>
  An exception is a value: its class and its message (for a \<open>KeyError\<close> the \<open>repr\<close> of
  the key, which is what \<open>str\<close> of the exception gives). A function that may raise
  returns \<open>py_error + 'a\<close>.
\<close>

datatype py_error =
    ValueError string | OverflowError string | AttributeError string | KeyError string

text \<open>
  \<open>float(n)\<close> for an integer: the nearest binary64 value, and \<open>OverflowError\<close> when the
  integer is too large to have one.
\<close>

definition float_of_int :: "int \<Rightarrow> py_error + pyfloat" where
  "float_of_int n =
     (case to_double (of_int n) of
        Finite q \<Rightarrow> Inr (Finite q)
      | NegZero \<Rightarrow> Inr NegZero
      | _ \<Rightarrow> Inl (OverflowError ''int too large to convert to float''))"

text \<open>The floats that are numbers (\<open>math.isfinite\<close>): neither an infinity nor NaN.\<close>

fun is_finite :: "pyfloat \<Rightarrow> bool" where
  "is_finite (Finite q) = True"
| "is_finite NegZero = True"
| "is_finite x = False"

text \<open>A running \<open>+=\<close> from \<open>0.0\<close>: the additions are made from the left.\<close>

definition float_sum :: "pyfloat list \<Rightarrow> pyfloat" where
  "float_sum xs = foldl float_add (Finite 0) xs"

section \<open>Reservation summaries (Task C and Task G)\<close>

text \<open>
  Task C keeps a converted reservation as an 11-element list, Task G as an object
  (\<open>task_g_class.py\<close>) or as a dictionary (\<open>task_g_dict.py\<close>); the fields are the same.
  The summary functions read the \<open>confirmed\<close> field only (index 8 of the list).
\<close>

record reservation =
  reservationId :: int
  name :: string
  email :: string
  phone :: string
  reservationDate :: date
  reservationTime :: "nat \<times> nat \<times> nat"
  durationHours :: int
  price :: pyfloat
  confirmed :: bool
  reservedResource :: string
  createdAt :: datetime

text \<open>
  \<open>confirmation_summary\<close> prints two lines; the model returns the two counts and the
  lines printed.
\<close>

definition summary_lines :: "int \<Rightarrow> int \<Rightarrow> string list" where
  "summary_lines c n =
     [''- Confirmed reservations: '' @ dec_int c @ '' pcs'',
      ''- Not confirmed reservations: '' @ dec_int n @ '' pcs'']"

text \<open>Task C: \<open>not_confirmed_count = len(reservations) - confirmed_count\<close>.\<close>

definition confirmation_counts_c :: "reservation list \<Rightarrow> int \<times> int" where
  "confirmation_counts_c reservations =
     (let confirmed_count = int (length (filter confirmed reservations));
          not_confirmed_count = int (length reservations) - confirmed_count
      in (confirmed_count, not_confirmed_count))"

definition confirmation_summary_c :: "reservation list \<Rightarrow> string list" where
  "confirmation_summary_c reservations =
     (case confirmation_counts_c reservations of (c, n) \<Rightarrow> summary_lines c n)"

text \<open>
  Task G, class variant: \<open>not_confirmed = (len(reservations) + 1) - confirmed\<close>, under the
  comment "Match original buggy behavior".
\<close>

definition confirmation_counts_g_class :: "reservation list \<Rightarrow> int \<times> int" where
  "confirmation_counts_g_class reservations =
     (let confirmed_n = int (length (filter confirmed reservations));
          not_confirmed = (int (length reservations) + 1) - confirmed_n
      in (confirmed_n, not_confirmed))"

definition confirmation_summary_g_class :: "reservation list \<Rightarrow> string list" where
  "confirmation_summary_g_class reservations =
     (case confirmation_counts_g_class reservations of (c, n) \<Rightarrow> summary_lines c n)"

text \<open>
  Task G, dictionary variant: the same expression, under the comment "Replicate original
  program behavior (header counted as reservation)".
\<close>

definition confirmation_counts_g_dict :: "reservation list \<Rightarrow> int \<times> int" where
  "confirmation_counts_g_dict reservations =
     (let confirmed_n = int (length (filter confirmed reservations));
          not_confirmed = (int (length reservations) + 1) - confirmed_n
      in (confirmed_n, not_confirmed))"

definition confirmation_summary_g_dict :: "reservation list \<Rightarrow> string list" where
  "confirmation_summary_g_dict reservations =
     (case confirmation_counts_g_dict reservations of (c, n) \<Rightarrow> summary_lines c n)"

section \<open>Daily aggregation (Task E and Task D)\<close>

type_synonym triple = "pyfloat \<times> pyfloat \<times> pyfloat"

text \<open>Task E: one hourly row, values in Wh, and one day's totals, values in kWh.\<close>

record HourRow =
  timestamp :: datetime
  cons_wh :: triple
  prod_wh :: triple

record DaySummary =
  day :: date
  cons_kwh :: triple
  prod_kwh :: triple

text \<open>
  The accumulator of one date: the dictionary \<open>{"cons": [0.0, 0.0, 0.0], "prod": [0.0,
  0.0, 0.0]}\<close> that the \<open>defaultdict\<close> creates the first time a date is read.
\<close>

record day_acc =
  cons :: triple
  prod :: triple

definition new_acc :: day_acc where
  "new_acc = \<lparr>cons = (Finite 0, Finite 0, Finite 0), prod = (Finite 0, Finite 0, Finite 0)\<rparr>"

text \<open>
  The dictionary keyed by date is an association list in insertion order: an assignment
  to a key already there leaves its place, a new key goes to the end.
  \<open>acc_lookup\<close> is the read \<open>daily_wh[d]\<close> of the \<open>defaultdict\<close>.
\<close>

definition acc_lookup :: "(date \<times> day_acc) list \<Rightarrow> date \<Rightarrow> day_acc" where
  "acc_lookup daily_wh d = (case map_of daily_wh d of None \<Rightarrow> new_acc | Some a \<Rightarrow> a)"

text \<open>The inner loop \<open>for idx in range(3)\<close>: the three cells of each list, each updated once.\<close>

fun add3 :: "triple \<Rightarrow> triple \<Rightarrow> triple" where
  "add3 (a1, a2, a3) (b1, b2, b3) = (float_add a1 b1, float_add a2 b2, float_add a3 b3)"

fun kwh3 :: "triple \<Rightarrow> triple" where
  "kwh3 (a1, a2, a3) = (float_div a1 1000, float_div a2 1000, float_div a3 1000)"

text \<open>One turn of the loop over the rows of \<open>summarize_days\<close>.\<close>

definition add_hour_row :: "(date \<times> day_acc) list \<Rightarrow> HourRow \<Rightarrow> (date \<times> day_acc) list" where
  "add_hour_row daily_wh r =
     (let d = date_of (timestamp r);
          a = acc_lookup daily_wh d
      in AList.update d \<lparr>cons = add3 (cons a) (cons_wh r), prod = add3 (prod a) (prod_wh r)\<rparr>
           daily_wh)"

definition summarize_days :: "HourRow list \<Rightarrow> DaySummary list" where
  "summarize_days hour_rows =
     (let daily_wh = foldl add_hour_row [] hour_rows
      in map (\<lambda>d. \<lparr>day = d,
                     cons_kwh = kwh3 (cons (acc_lookup daily_wh d)),
                     prod_kwh = kwh3 (prod (acc_lookup daily_wh d))\<rparr>)
           (sort (map fst daily_wh)))"

text \<open>
  What the aggregation is to compute, in the words of the specification: the rows of one
  date, the sum of one quantity over them (a float sum, taken in the order of the rows),
  and the same in kWh.
\<close>

definition rows_on :: "date \<Rightarrow> HourRow list \<Rightarrow> HourRow list" where
  "rows_on d hour_rows = filter (\<lambda>r. date_of (timestamp r) = d) hour_rows"

definition sum3 :: "triple list \<Rightarrow> triple" where
  "sum3 ts = (float_sum (map fst ts), float_sum (map (fst \<circ> snd) ts),
              float_sum (map (snd \<circ> snd) ts))"

definition day_total :: "date \<Rightarrow> HourRow list \<Rightarrow> DaySummary" where
  "day_total d hour_rows =
     \<lparr>day = d,
      cons_kwh = kwh3 (sum3 (map cons_wh (rows_on d hour_rows))),
      prod_kwh = kwh3 (sum3 (map prod_wh (rows_on d hour_rows)))\<rparr>"

definition dates_of :: "HourRow list \<Rightarrow> date set" where
  "dates_of hour_rows = set (map (\<lambda>r. date_of (timestamp r)) hour_rows)"



subsection \<open>Task D\<close>

text \<open>Task D keeps the six values of a row as integers (whole Wh).\<close>

record Row =
  row_timestamp :: datetime
  consumption_wh :: "int \<times> int \<times> int"
  production_wh :: "int \<times> int \<times> int"

text \<open>\<open>float(r.consumption_wh[i])\<close> for the three cells of a tuple.\<close>

fun float3 :: "int \<times> int \<times> int \<Rightarrow> py_error + triple" where
  "float3 (n1, n2, n3) =
     (case float_of_int n1 of Inl e \<Rightarrow> Inl e | Inr x1 \<Rightarrow>
      case float_of_int n2 of Inl e \<Rightarrow> Inl e | Inr x2 \<Rightarrow>
      case float_of_int n3 of Inl e \<Rightarrow> Inl e | Inr x3 \<Rightarrow> Inr (x1, x2, x3))"

text \<open>
  One turn of the loop over the rows of \<open>daily_totals_wh\<close>; an exception of a conversion
  leaves the function at once.
\<close>

definition add_row :: "(date \<times> day_acc) list \<Rightarrow> Row \<Rightarrow> py_error + (date \<times> day_acc) list" where
  "add_row acc r =
     (let d = date_of (row_timestamp r);
          a = acc_lookup acc d
      in case float3 (consumption_wh r) of Inl e \<Rightarrow> Inl e | Inr c \<Rightarrow>
         case float3 (production_wh r) of Inl e \<Rightarrow> Inl e | Inr p \<Rightarrow>
           Inr (AList.update d \<lparr>cons = add3 (cons a) c, prod = add3 (prod a) p\<rparr> acc))"

fun add_rows :: "(date \<times> day_acc) list \<Rightarrow> Row list \<Rightarrow> py_error + (date \<times> day_acc) list" where
  "add_rows acc [] = Inr acc"
| "add_rows acc (r # rows) =
     (case add_row acc r of Inl e \<Rightarrow> Inl e | Inr acc' \<Rightarrow> add_rows acc' rows)"

text \<open>
  The result is the \<open>OrderedDict\<close> filled in the order of the sorted dates: the list of
  its items, each date with its totals in Wh.
\<close>

definition daily_totals_wh :: "Row list \<Rightarrow> py_error + (date \<times> day_acc) list" where
  "daily_totals_wh rows =
     (case add_rows [] rows of
        Inl e \<Rightarrow> Inl e
      | Inr acc \<Rightarrow> Inr (map (\<lambda>d. (d, \<lparr>cons = cons (acc_lookup acc d),
                                        prod = prod (acc_lookup acc d)\<rparr>))
                       (sort (map fst acc))))"

text \<open>
  The same row with its six integers converted to floats, and a whole list of rows
  converted so; the first conversion that fails gives the exception.
\<close>

definition to_hour_row :: "Row \<Rightarrow> py_error + HourRow" where
  "to_hour_row r =
     (case float3 (consumption_wh r) of Inl e \<Rightarrow> Inl e | Inr c \<Rightarrow>
      case float3 (production_wh r) of Inl e \<Rightarrow> Inl e | Inr p \<Rightarrow>
        Inr \<lparr>timestamp = row_timestamp r, cons_wh = c, prod_wh = p\<rparr>)"

fun to_hour_rows :: "Row list \<Rightarrow> py_error + HourRow list" where
  "to_hour_rows [] = Inr []"
| "to_hour_rows (r # rows) =
     (case to_hour_row r of Inl e \<Rightarrow> Inl e | Inr h \<Rightarrow>
      case to_hour_rows rows of Inl e \<Rightarrow> Inl e | Inr hs \<Rightarrow> Inr (h # hs))"

definition day_total_wh :: "date \<Rightarrow> HourRow list \<Rightarrow> date \<times> day_acc" where
  "day_total_wh d hour_rows =
     (d, \<lparr>cons = sum3 (map cons_wh (rows_on d hour_rows)),
          prod = sum3 (map prod_wh (rows_on d hour_rows))\<rparr>)"

subsection \<open>Exact inputs and sample rows\<close>

text \<open>
  A float is whole when it is a finite non-negative integer; a list of rows is whole when
  all its values are and their sum stays below \<open>2 ^ 53\<close>, the range in which every
  integer is a binary64 value and float addition is exact.
\<close>

fun is_whole :: "pyfloat \<Rightarrow> bool" where
  "is_whole (Finite q) = (0 \<le> q \<and> of_int \<lfloor>q\<rfloor> = q)"
| "is_whole _ = False"

fun whole_of :: "pyfloat \<Rightarrow> nat" where
  "whole_of (Finite q) = nat \<lfloor>q\<rfloor>"
| "whole_of _ = 0"

fun triple_values :: "triple \<Rightarrow> pyfloat list" where
  "triple_values (a1, a2, a3) = [a1, a2, a3]"

definition wh_values :: "HourRow list \<Rightarrow> pyfloat list" where
  "wh_values rows = concat (map (\<lambda>r. triple_values (cons_wh r) @ triple_values (prod_wh r)) rows)"

definition whole_rows :: "HourRow list \<Rightarrow> bool" where
  "whole_rows rows =
     (list_all is_whole (wh_values rows) \<and> sum_list (map whole_of (wh_values rows)) < 2 ^ 53)"

fun int_values :: "int \<times> int \<times> int \<Rightarrow> int list" where
  "int_values (n1, n2, n3) = [n1, n2, n3]"

definition row_ints :: "Row list \<Rightarrow> int list" where
  "row_ints rows = concat (map (\<lambda>r. int_values (consumption_wh r) @ int_values (production_wh r)) rows)"

definition whole_rows_d :: "Row list \<Rightarrow> bool" where
  "whole_rows_d rows = (list_all (\<lambda>n. 0 \<le> n) (row_ints rows) \<and> sum_list (row_ints rows) < 2 ^ 53)"

definition row_values :: "HourRow \<Rightarrow> pyfloat list" where
  "row_values r = triple_values (cons_wh r) @ triple_values (prod_wh r)"

fun fin3 :: "int \<times> int \<times> int \<Rightarrow> triple" where
  "fin3 (n1, n2, n3) = (Finite (of_int n1), Finite (of_int n2), Finite (of_int n3))"

definition exact_hour_row :: "Row \<Rightarrow> HourRow" where
  "exact_hour_row r =
     \<lparr>timestamp = row_timestamp r, cons_wh = fin3 (consumption_wh r),
      prod_wh = fin3 (production_wh r)\<rparr>"

text \<open>Sample rows: one value in consumption phase 1, every other value zero.\<close>

definition hour_row :: "date \<Rightarrow> rat \<Rightarrow> HourRow" where
  "hour_row d x =
     \<lparr>timestamp = mk_datetime (fst d) (fst (snd d)) (snd (snd d)),
      cons_wh = (Finite x, Finite 0, Finite 0),
      prod_wh = (Finite 0, Finite 0, Finite 0)\<rparr>"

definition int_row :: "date \<Rightarrow> int \<Rightarrow> Row" where
  "int_row d n =
     \<lparr>row_timestamp = mk_datetime (fst d) (fst (snd d)) (snd (snd d)),
      consumption_wh = (n, 0, 0), production_wh = (0, 0, 0)\<rparr>"



section \<open>Report formatting (Task D, Task E, Task F)\<close>

text \<open>
  Task E, \<open>fi_number\<close>: two decimals, then every dot replaced by a comma.
\<close>

definition fi_number :: "pyfloat \<Rightarrow> string" where
  "fi_number v = replace_char CHR ''.'' '','' (format_2f v)"

text \<open>Task E, \<open>fi_date\<close>: \<open>f"{d.day:02d}.{d.month:02d}.{d.year}"\<close>.\<close>

definition fi_date :: "date \<Rightarrow> string" where
  "fi_date d =
     (case d of (y, m, dd) \<Rightarrow> pad2 dd @ ''.'' @ pad2 m @ ''.'' @ dec_nat y)"

text \<open>Task D, \<open>kwh_str_from_wh\<close>: the division by \<open>1000.0\<close>, then the same rendering.\<close>

definition kwh_str_from_wh :: "pyfloat \<Rightarrow> string" where
  "kwh_str_from_wh total_wh =
     (let kwh = float_div total_wh 1000
      in replace_char CHR ''.'' '','' (format_2f kwh))"

text \<open>
  Task F, \<open>fmt_date\<close>: \<open>f"{d.day}.{d.month}.{d.year}"\<close>, documented in the source as
  "dd.mm.yyyy without zero-padding, e.g. 1.11.2025"; \<open>_fmt_decimal\<close> with its two callers.
\<close>

definition fmt_date :: "date \<Rightarrow> string" where
  "fmt_date d =
     (case d of (y, m, dd) \<Rightarrow> dec_nat dd @ ''.'' @ dec_nat m @ ''.'' @ dec_nat y)"

definition fmt_decimal :: "pyfloat \<Rightarrow> string" where
  "fmt_decimal v = replace_char CHR ''.'' '','' (format_2f v)"

definition fmt_kwh :: "pyfloat \<Rightarrow> string" where
  "fmt_kwh v = fmt_decimal v"

definition fmt_temp :: "pyfloat \<Rightarrow> string" where
  "fmt_temp v = fmt_decimal v"

text \<open>
  The shapes the formats are to have. A \<open>datetime.date\<close> has a year from 1 to 9999, a
  month from 1 to 12 and a day from 1 to 31. A decimal in the Finnish form is an optional
  minus sign, at least one digit, a comma and exactly two digits.
\<close>

definition is_digit :: "char \<Rightarrow> bool" where
  "is_digit c = (c \<in> set ''0123456789'')"

definition valid_date :: "date \<Rightarrow> bool" where
  "valid_date d =
     (case d of (y, m, dd) \<Rightarrow> 1 \<le> y \<and> y \<le> 9999 \<and> 1 \<le> m \<and> m \<le> 12 \<and> 1 \<le> dd \<and> dd \<le> 31)"

definition is_fi_decimal :: "string \<Rightarrow> bool" where
  "is_fi_decimal s =
     (let body = (case s of c # cs \<Rightarrow> if c = CHR ''-'' then cs else s | [] \<Rightarrow> s);
          int_part = takeWhile is_digit body;
          rest = dropWhile is_digit body
      in int_part \<noteq> [] \<and>
         (case rest of [c, f1, f2] \<Rightarrow> c = CHR '','' \<and> is_digit f1 \<and> is_digit f2 | _ \<Rightarrow> False))"

section \<open>The report for a range of days (Task F)\<close>

record Measurement =
  dt :: datetime
  consumption :: pyfloat
  production :: pyfloat
  temperature :: pyfloat

text \<open>
  The lines of a report hold characters beyond Latin-1 (the en dash U+2013), so a line is
  a list of code points.
\<close>

definition cps :: "string \<Rightarrow> nat list" where
  "cps s = map of_char s"

text \<open>
  The builtin \<open>sum\<close>: additions from the left, starting from 0 (newer interpreters
  compensate the rounding error of the additions; the result stays a function of the
  list of values).
\<close>

definition py_sum :: "pyfloat list \<Rightarrow> pyfloat" where
  "py_sum xs = foldl float_add (Finite 0) xs"

text \<open>
  \<open>create_daily_report\<close> reads the two dates from the console; here they are arguments.
  When the end precedes the start, the function prints a notice and swaps the two.
\<close>

definition daily_period :: "date \<Rightarrow> date \<Rightarrow> date \<times> date" where
  "daily_period start end_d = (if end_d < start then (end_d, start) else (start, end_d))"

definition daily_notice :: "date \<Rightarrow> date \<Rightarrow> string list" where
  "daily_notice start end_d =
     (if end_d < start then [''End date is before start date. Swapping.''] else [])"

definition daily_selected :: "Measurement list \<Rightarrow> date \<Rightarrow> date \<Rightarrow> Measurement list" where
  "daily_selected data start end_d =
     (case daily_period start end_d of
        (s, e) \<Rightarrow> filter (\<lambda>m. s \<le> date_of (dt m) \<and> date_of (dt m) \<le> e) data)"

definition avg_temperature :: "Measurement list \<Rightarrow> pyfloat option" where
  "avg_temperature selected =
     (let temps = map temperature selected
      in if temps \<noteq> [] then Some (float_div (py_sum temps) (of_nat (length temps))) else None)"

definition create_daily_report :: "Measurement list \<Rightarrow> date \<Rightarrow> date \<Rightarrow> nat list list" where
  "create_daily_report data start end_d =
     (case daily_period start end_d of
        (s, e) \<Rightarrow>
          let selected = daily_selected data start end_d;
              total_cons = py_sum (map consumption selected);
              total_prod = py_sum (map production selected);
              avg_temp = avg_temperature selected
          in [replicate 55 (of_char CHR ''-''),
              cps ''Report for the period '' @ cps (fmt_date s) @ [8211] @ cps (fmt_date e),
              cps ''- Total consumption: '' @ cps (fmt_kwh total_cons) @ cps '' kWh'',
              cps ''- Total production: '' @ cps (fmt_kwh total_prod) @ cps '' kWh'',
              (case avg_temp of
                 Some t \<Rightarrow> cps ''- Average temperature: '' @ cps (fmt_temp t) @ [32, 176, 67]
               | None \<Rightarrow> cps ''- Average temperature: n/a'')])"

section \<open>Numeric text (Task D, Task E, Task F)\<close>

subsection \<open>\<open>repr\<close> of a string\<close>

text \<open>
  \<open>repr(s)\<close>, as \<open>{s!r}\<close> formats it: single quotes, unless the string holds a single
  quote and no double quote; the quote and the backslash escaped, TAB, LF and CR by their
  letters, every other code point that is not printable as \<open>\xNN\<close>.
\<close>

definition hex_digit :: "nat \<Rightarrow> char" where
  "hex_digit d = ''0123456789abcdef'' ! (d mod 16)"

definition py_printable :: "char \<Rightarrow> bool" where
  "py_printable c =
     (let n = (of_char c :: nat)
      in (32 \<le> n \<and> n < 127) \<or> (161 \<le> n \<and> n \<noteq> 173))"

definition repr_char :: "char \<Rightarrow> char \<Rightarrow> string" where
  "repr_char quote c =
     (if c = quote \<or> c = CHR 0x5C then [CHR 0x5C, c]
      else if c = CHR 0x09 then [CHR 0x5C, CHR ''t'']
      else if c = CHR 0x0A then [CHR 0x5C, CHR ''n'']
      else if c = CHR 0x0D then [CHR 0x5C, CHR ''r'']
      else if py_printable c then [c]
      else [CHR 0x5C, CHR ''x'', hex_digit (of_char c div 16), hex_digit (of_char c mod 16)])"

definition py_repr :: "string \<Rightarrow> string" where
  "py_repr s =
     (let quote = (if CHR 0x27 \<in> set s \<and> CHR 0x22 \<notin> set s then CHR 0x22 else CHR 0x27)
      in [quote] @ concat (map (repr_char quote) s) @ [quote])"

subsection \<open>\<open>float(s)\<close>\<close>

text \<open>
  The constructor \<open>float\<close> on a string: NEL and the no-break space count as spaces;
  an underscore may stand between two digits only; the spaces of C (TAB, LF, VT, FF, CR,
  space) are dropped at both ends; what is left is a sign and \<open>inf\<close>, \<open>infinity\<close> or
  \<open>nan\<close> in any case, or a decimal number with an optional exponent. The value is the
  binary64 value nearest to the number written; too large a number gives an infinity.
  The result is \<open>None\<close> where \<open>float\<close> raises \<open>ValueError\<close>.
\<close>

definition digit_val :: "char \<Rightarrow> int" where
  "digit_val c = of_char c - 48"

definition int_of_digits :: "string \<Rightarrow> int" where
  "int_of_digits ds = foldl (\<lambda>a c. 10 * a + digit_val c) 0 ds"

definition ascii_lower :: "char \<Rightarrow> char" where
  "ascii_lower c =
     (if c \<in> set ''ABCDEFGHIJKLMNOPQRSTUVWXYZ'' then char_of (of_char c + (32::nat)) else c)"

definition c_isspace :: "char \<Rightarrow> bool" where
  "c_isspace c = (c \<in> set [CHR 0x09, CHR 0x0A, CHR 0x0B, CHR 0x0C, CHR 0x0D, CHR 0x20])"

fun underscores_ok :: "char \<Rightarrow> string \<Rightarrow> bool" where
  "underscores_ok prev [] = (prev \<noteq> CHR ''_'')"
| "underscores_ok prev (c # cs) =
     ((if c = CHR ''_'' then is_digit prev
       else if prev = CHR ''_'' then is_digit c else True)
      \<and> underscores_ok c cs)"

definition parse_exponent :: "string \<Rightarrow> int \<times> string" where
  "parse_exponent s =
     (case s of
        [] \<Rightarrow> (0, s)
      | e # r \<Rightarrow>
          if e = CHR ''e'' \<or> e = CHR ''E'' then
            (case (case r of
                     [] \<Rightarrow> (1, r)
                   | c # r' \<Rightarrow> if c = CHR ''-'' then (- 1, r')
                              else if c = CHR ''+'' then (1, r') else (1, r))
             of (sg, r1) \<Rightarrow>
               if takeWhile is_digit r1 = [] then (0, s)
               else (sg * int_of_digits (takeWhile is_digit r1), dropWhile is_digit r1))
          else (0, s))"

definition parse_decimal :: "string \<Rightarrow> rat option" where
  "parse_decimal s =
     (let ip = takeWhile is_digit s;
          r1 = dropWhile is_digit s
      in case (case r1 of
                 [] \<Rightarrow> ([], r1)
               | c # r \<Rightarrow> if c = CHR ''.'' then (takeWhile is_digit r, dropWhile is_digit r)
                          else ([], r1))
         of (fp, r2) \<Rightarrow>
           if ip = [] \<and> fp = [] then None
           else case parse_exponent r2 of (ex, r3) \<Rightarrow>
             if r3 \<noteq> [] then None
             else Some (of_int (int_of_digits (ip @ fp)) * 10 powi (ex - int (length fp))))"

definition py_float :: "string \<Rightarrow> pyfloat option" where
  "py_float s =
     (let t = map (\<lambda>c. if c = CHR 0x85 \<or> c = CHR 0xA0 then CHR 0x20 else c) s
      in if \<not> underscores_ok (CHR 0x00) t then None
         else case rev (dropWhile c_isspace (rev (dropWhile c_isspace
                     (filter (\<lambda>c. c \<noteq> CHR ''_'') t)))) of
                [] \<Rightarrow> None
              | c # cs \<Rightarrow>
                  (case (if c = CHR ''-'' then (True, cs)
                         else if c = CHR ''+'' then (False, cs) else (False, c # cs))
                   of (neg, body) \<Rightarrow>
                     if map ascii_lower body = ''inf'' \<or> map ascii_lower body = ''infinity''
                     then Some (if neg then NegInf else PosInf)
                     else if map ascii_lower body = ''nan'' then Some NaN
                     else case parse_decimal body of
                            None \<Rightarrow> None
                          | Some q \<Rightarrow>
                              Some (if neg then (if q = 0 then NegZero else to_double (- q))
                                    else to_double q)))"

text \<open>
  \<open>round(x)\<close> of a float, without digits: the nearest integer, ties to even; an
  infinity raises \<open>OverflowError\<close> and NaN raises \<open>ValueError\<close>.
\<close>

fun py_round :: "pyfloat \<Rightarrow> py_error + int" where
  "py_round (Finite q) = Inr (round_half_even q)"
| "py_round NegZero = Inr 0"
| "py_round NaN = Inl (ValueError ''cannot convert float NaN to integer'')"
| "py_round PosInf = Inl (OverflowError ''cannot convert float infinity to integer'')"
| "py_round NegInf = Inl (OverflowError ''cannot convert float infinity to integer'')"


definition float_error :: "string \<Rightarrow> py_error" where
  "float_error s = ValueError (''could not convert string to float: '' @ py_repr s)"

subsection \<open>The three normalizers\<close>

text \<open>
  Task D, \<open>to_wh\<close> (inside \<open>read_data\<close>): strip, no-break spaces to spaces, the empty
  string to 0, else \<open>int(round(float(s.replace(",", "."))))\<close>.
\<close>

definition to_wh :: "string \<Rightarrow> py_error + int" where
  "to_wh s0 =
     (let s = replace_char (CHR 0xA0) '' '' (strip s0)
      in if s = [] then Inr 0
         else case py_float (replace_char CHR '','' ''.'' s) of
                None \<Rightarrow> Inl (float_error (replace_char CHR '','' ''.'' s))
              | Some x \<Rightarrow> py_round x)"

text \<open>
  Task E, \<open>parse_wh\<close> (inside \<open>read_data\<close>): the cell of the row is \<open>None\<close> when the row
  is shorter than the header; \<open>(rec.get(key, "") or "")\<close> makes it the empty string.
\<close>

definition parse_wh :: "string option \<Rightarrow> py_error + pyfloat" where
  "parse_wh cell =
     (let t = replace_char CHR '','' ''.'' (strip (case cell of None \<Rightarrow> [] | Some v \<Rightarrow> v))
      in if t \<noteq> [] then (case py_float t of None \<Rightarrow> Inl (float_error t) | Some x \<Rightarrow> Inr x)
         else Inr (Finite 0))"

text \<open>
  Task F, \<open>_parse_float\<close>: a text that \<open>float\<close> refuses gives \<open>0.0\<close>.
\<close>

definition parse_float :: "string \<Rightarrow> pyfloat" where
  "parse_float text =
     (let s = replace_char CHR '','' ''.'' (strip text)
      in case py_float s of None \<Rightarrow> Finite 0 | Some x \<Rightarrow> x)"

section \<open>Column detection (Task E)\<close>

text \<open>
  \<open>str.lower\<close> on the code points below 256: the letters A to Z and the capital letters
  of the Latin-1 block (0xC0 to 0xDE, the multiplication sign apart) move by 32.
\<close>

definition py_lower_char :: "char \<Rightarrow> char" where
  "py_lower_char c =
     (let n = (of_char c :: int)
      in if (65 \<le> n \<and> n \<le> 90) \<or> (192 \<le> n \<and> n \<le> 222 \<and> n \<noteq> 215)
         then char_of (n + 32) else c)"

definition lower :: "string \<Rightarrow> string" where
  "lower s = map py_lower_char s"

text \<open>
  \<open>_normalize_header\<close>: strip and lower-case; \<open>re.sub(r"[\s\-\[\]\(\)_]", "", x)\<close> drops
  the whitespace and the characters \<open>- [ ] ( ) _\<close>; the unit \<open>wh\<close> is cut out last.
\<close>

definition normalize_header :: "string \<Rightarrow> string" where
  "normalize_header h =
     (let x = lower (strip h);
          x = filter (\<lambda>c. \<not> (py_isspace c \<or> c \<in> set ''-[]()_'')) x
      in replace_str ''wh'' [] x)"

text \<open>
  The dictionary comprehension \<open>{fn: _normalize_header(fn) for fn in fieldnames}\<close> is
  read in the order of its keys: the headers in the order of their first occurrence.
\<close>

fun dict_keys :: "'a list \<Rightarrow> 'a list" where
  "dict_keys [] = []"
| "dict_keys (x # xs) = x # removeAll x (dict_keys xs)"

definition is_timestamp_header :: "string \<Rightarrow> bool" where
  "is_timestamp_header nf =
     (contains ''timestamp'' nf \<or> contains ''datetime'' nf \<or> nf = ''time'' \<or> nf = ''date'')"

definition is_consumption_header :: "string \<Rightarrow> bool" where
  "is_consumption_header nf =
     (contains ''consumption'' nf \<or> contains ''cons'' nf \<or> contains ''kulutus'' nf)"

definition is_production_header :: "string \<Rightarrow> bool" where
  "is_production_header nf =
     (contains ''production'' nf \<or> contains ''prod'' nf \<or> contains ''tuotanto'' nf)"

text \<open>
  \<open>re.compile(r".*([123]).*").match(nf)\<close>: the first \<open>.*\<close> is greedy and a dot matches
  every character but a line feed, so the group is the last of the characters 1, 2, 3 on
  the first line of the text; there is no match when that line has none.
\<close>

definition phase_re_match :: "string \<Rightarrow> char option" where
  "phase_re_match nf =
     find (\<lambda>c. c \<in> set ''123'') (rev (takeWhile (\<lambda>c. c \<noteq> CHR 0x0A) nf))"

definition phase_of :: "string \<Rightarrow> nat option" where
  "phase_of nf = (case phase_re_match nf of None \<Rightarrow> None | Some c \<Rightarrow> Some (nat (digit_val c)))"

text \<open>
  The loop fills \<open>cons_cols\<close> and \<open>prod_cols\<close>, two dictionaries from a phase to a
  header, each kept in insertion order; a phase already present is not overwritten.
\<close>

definition add_phase :: "(nat \<times> string) list \<Rightarrow> string \<Rightarrow> (nat \<times> string) list" where
  "add_phase cols fn =
     (case phase_of (normalize_header fn) of
        None \<Rightarrow> cols
      | Some p \<Rightarrow> if p \<in> set [1, 2, 3] \<and> map_of cols p = None then cols @ [(p, fn)] else cols)"

definition collect_phases :: "(string \<Rightarrow> bool) \<Rightarrow> string list \<Rightarrow> (nat \<times> string) list" where
  "collect_phases candidate keys =
     foldl (\<lambda>cols fn. if candidate (normalize_header fn) then add_phase cols fn else cols) [] keys"

definition py_list_repr :: "nat list \<Rightarrow> string" where
  "py_list_repr ns =
     ''['' @ (case ns of [] \<Rightarrow> [] | n # r \<Rightarrow> dec_nat n @ concat (map (\<lambda>k. '', '' @ dec_nat k) r))
     @ '']''"

definition missing_phases :: "(nat \<times> string) list \<Rightarrow> nat list" where
  "missing_phases cols = filter (\<lambda>p. map_of cols p = None) [1, 2, 3]"

definition detect_columns ::
    "string list \<Rightarrow> py_error + string \<times> (nat \<times> string) list \<times> (nat \<times> string) list" where
  "detect_columns fieldnames =
     (if fieldnames = [] then Inl (ValueError ''CSV has no header row.'')
      else
        let keys = dict_keys fieldnames
        in case filter (\<lambda>fn. is_timestamp_header (normalize_header fn)) keys of
             [] \<Rightarrow> Inl (ValueError (''Could not detect timestamp column. '' @
                        ''Expected header like '' @ [CHR 0x27] @ ''Time'' @ [CHR 0x27] @
                        '' or '' @ [CHR 0x27] @ ''Timestamp'' @ [CHR 0x27] @ ''.''))
           | timestamp_col # _ \<Rightarrow>
               let cons_cols = collect_phases is_consumption_header keys;
                   prod_cols = collect_phases is_production_header keys;
                   missing_cons = missing_phases cons_cols;
                   missing_prod = missing_phases prod_cols
               in if missing_cons \<noteq> [] \<or> missing_prod \<noteq> []
                  then Inl (ValueError
                        (''Could not detect all required phase columns.'' @ [CHR 0x0A] @
                         ''Missing consumption phases: '' @ py_list_repr missing_cons @
                         '' | Missing production phases: '' @ py_list_repr missing_prod @
                         [CHR 0x0A] @
                         ''Expected headers like '' @ [CHR 0x27] @ ''Consumption phase 1 Wh'' @
                         [CHR 0x27] @ '' and '' @ [CHR 0x27] @ ''Production phase 1 Wh'' @
                         [CHR 0x27] @ ''.''))
                  else Inr (timestamp_col, cons_cols, prod_cols))"

text \<open>The header row that Task E documents for its input files.\<close>

definition week_header :: "string list" where
  "week_header =
     [''Time'', ''Consumption phase 1 Wh'', ''Consumption phase 2 Wh'', ''Consumption phase 3 Wh'',
      ''Production phase 1 Wh'', ''Production phase 2 Wh'', ''Production phase 3 Wh'']"

section \<open>Timestamps (Task D, Task E, Task F)\<close>

text \<open>
  The parsers call \<open>datetime.fromisoformat\<close> and \<open>datetime.strptime\<close> of the standard
  library. A library is a pair of partial functions, \<open>None\<close> standing for the
  \<open>ValueError\<close> the call raises; the parsers take it as a parameter.
\<close>

record dtlib =
  fromisoformat :: "string \<Rightarrow> datetime option"
  strptime :: "string \<Rightarrow> string \<Rightarrow> datetime option"

text \<open>
  The loop over the patterns: the first pattern that \<open>strptime\<close> accepts gives the
  result, a pattern it refuses is passed over.
\<close>

fun first_format :: "dtlib \<Rightarrow> string \<Rightarrow> string list \<Rightarrow> datetime option" where
  "first_format L s [] = None"
| "first_format L s (fmt # fmts) =
     (case strptime L s fmt of Some t \<Rightarrow> Some t | None \<Rightarrow> first_format L s fmts)"

text \<open>
  The error of Task D and Task E: \<open>ValueError(f"Unrecognized timestamp format: {text!r}")\<close>,
  with the text as it was given.
\<close>

definition unrecognized :: "string \<Rightarrow> py_error" where
  "unrecognized text = ValueError (''Unrecognized timestamp format: '' @ py_repr text)"

subsection \<open>Task D, \<open>parse_timestamp\<close>\<close>

text \<open>
  The text is stripped and every \<open>Z\<close> removed; then \<open>fromisoformat\<close>, then the three
  patterns, then the error.
\<close>

definition formats_d :: "string list" where
  "formats_d = [''%Y-%m-%d %H:%M:%S'', ''%Y/%m/%d %H:%M'', ''%d.%m.%Y %H:%M:%S'']"

definition parse_timestamp_d :: "dtlib \<Rightarrow> string \<Rightarrow> py_error + datetime" where
  "parse_timestamp_d L text =
     (let s = replace_char CHR ''Z'' [] (strip text)
      in case fromisoformat L s of
           Some t \<Rightarrow> Inr t
         | None \<Rightarrow>
             (case first_format L s formats_d of
                Some t \<Rightarrow> Inr t
              | None \<Rightarrow> Inl (unrecognized text)))"

subsection \<open>Task E, \<open>parse_timestamp\<close>\<close>



subsection \<open>Task F, \<open>_parse_timestamp\<close>\<close>


subsection \<open>A reference library\<close>

















section \<open>Reading the files (Task D and Task E)\<close>

text \<open>
  A file is given as the rows that \<open>csv.reader\<close> yields from it, every row a list of
  cells; an empty line of the file is the empty row.
\<close>

subsection \<open>Task D, \<open>read_data\<close>\<close>

text \<open>
  \<open>repr\<close> of a list of strings, for the message about a short row.
\<close>

definition py_repr_list :: "string list \<Rightarrow> string" where
  "py_repr_list ss =
     ''['' @ (case ss of [] \<Rightarrow> [] | s # r \<Rightarrow> py_repr s @ concat (map (\<lambda>t. '', '' @ py_repr t) r))
     @ '']''"

text \<open>
  A row that is empty or has blank cells only is passed over; so is a row whose first
  cell \<open>parse_timestamp\<close> refuses (\<open>except ValueError: continue\<close>). A row with a timestamp
  and fewer than seven cells raises \<open>ValueError\<close>; the cells 1 to 3 and 4 to 6 are
  converted by \<open>to_wh\<close>, whose exception leaves \<open>read_data\<close>. The result for a row is
  \<open>None\<close> when the row is passed over, an error, or the \<open>Row\<close>.
\<close>

definition blank_row :: "string list \<Rightarrow> bool" where
  "blank_row raw = (raw = [] \<or> list_all (\<lambda>c. strip c = []) raw)"

fun to_wh3 :: "string list \<Rightarrow> py_error + int \<times> int \<times> int" where
  "to_wh3 [x1, x2, x3] =
     (case to_wh x1 of Inl e \<Rightarrow> Inl e | Inr n1 \<Rightarrow>
      case to_wh x2 of Inl e \<Rightarrow> Inl e | Inr n2 \<Rightarrow>
      case to_wh x3 of Inl e \<Rightarrow> Inl e | Inr n3 \<Rightarrow> Inr (n1, n2, n3))"
| "to_wh3 xs = Inl (ValueError ''not enough values to unpack'')"

definition read_row_d :: "dtlib \<Rightarrow> string list \<Rightarrow> (py_error + Row) option" where
  "read_row_d L raw =
     (if blank_row raw then None
      else case parse_timestamp_d L (hd raw) of
             Inl e \<Rightarrow> None
           | Inr ts \<Rightarrow>
               if length raw < 7
               then Some (Inl (ValueError (''Expected at least 7 columns, got '' @
                                           dec_nat (length raw) @ '' in row: '' @
                                           py_repr_list raw)))
               else (case to_wh3 (take 3 (drop 1 raw)) of
                       Inl e \<Rightarrow> Some (Inl e)
                     | Inr c \<Rightarrow>
                         (case to_wh3 (take 3 (drop 4 raw)) of
                            Inl e \<Rightarrow> Some (Inl e)
                          | Inr p \<Rightarrow>
                              Some (Inr \<lparr>row_timestamp = ts, consumption_wh = c,
                                         production_wh = p\<rparr>))))"

text \<open>
  The loop over the rows: an exception ends the read, and the rows read before are lost
  with it.
\<close>

fun read_data_d :: "dtlib \<Rightarrow> string list list \<Rightarrow> py_error + Row list" where
  "read_data_d L [] = Inr []"
| "read_data_d L (raw # rest) =
     (case read_row_d L raw of
        None \<Rightarrow> read_data_d L rest
      | Some (Inl e) \<Rightarrow> Inl e
      | Some (Inr r) \<Rightarrow>
          (case read_data_d L rest of Inl e \<Rightarrow> Inl e | Inr rs \<Rightarrow> Inr (r # rs)))"


subsection \<open>Task E, \<open>read_data\<close>\<close>








subsection \<open>Sample rows\<close>





section \<open>Properties\<close>

subsection \<open>Reservation summaries\<close>

text \<open>
  C8. On the same list of reservations the three summaries agree on the confirmed count,
  Task C reports the number of reservations minus the confirmed count as not confirmed,
  and both Task G variants report exactly one more: the number of reservations plus one
  minus the confirmed count.
\<close>

theorem confirmation_summary_off_by_one:
  "confirmation_counts_c rs =
     (int (length (filter confirmed rs)), int (length rs) - int (length (filter confirmed rs)))
   \<and> confirmation_counts_g_class rs =
     (int (length (filter confirmed rs)), int (length rs) + 1 - int (length (filter confirmed rs)))
   \<and> confirmation_counts_g_dict rs = confirmation_counts_g_class rs
   \<and> fst (confirmation_counts_g_class rs) = fst (confirmation_counts_c rs)
   \<and> snd (confirmation_counts_g_class rs) = snd (confirmation_counts_c rs) + 1
   \<and> snd (confirmation_counts_g_dict rs) = snd (confirmation_counts_c rs) + 1"
  by (simp add: confirmation_counts_c_def confirmation_counts_g_class_def
      confirmation_counts_g_dict_def Let_def)

subsection \<open>Daily aggregation\<close>

lemma acc_lookup_update:
  "acc_lookup (AList.update k v al) d = (if d = k then v else acc_lookup al d)"
  by (simp add: acc_lookup_def update_conv')

lemma float_sum_snoc: "float_sum (xs @ [x]) = float_add (float_sum xs) x"
  by (simp add: float_sum_def)

lemma sum3_snoc: "sum3 (ts @ [t]) = add3 (sum3 ts) t"
  by (cases t) (simp add: sum3_def float_sum_snoc)

lemma sum3_Nil: "sum3 [] = (Finite 0, Finite 0, Finite 0)"
  by (simp add: sum3_def float_sum_def)

lemma acc_lookup_add_hour_row:
  "acc_lookup (add_hour_row al r) d =
     (if d = date_of (timestamp r)
      then \<lparr>cons = add3 (cons (acc_lookup al d)) (cons_wh r),
            prod = add3 (prod (acc_lookup al d)) (prod_wh r)\<rparr>
      else acc_lookup al d)"
  by (simp add: add_hour_row_def Let_def acc_lookup_update)

lemma distinct_add_hour_row:
  "distinct (map fst al) \<Longrightarrow> distinct (map fst (add_hour_row al r))"
  by (simp add: add_hour_row_def Let_def distinct_update)

lemma keys_add_hour_row:
  "fst ` set (add_hour_row al r) = insert (date_of (timestamp r)) (fst ` set al)"
  by (simp add: add_hour_row_def Let_def dom_update)

text \<open>
  The loop invariant: after the rows read so far, the entry of every date holds the
  running sums over the rows of that date, in their order.
\<close>

lemma acc_lookup_foldl:
  "acc_lookup (foldl add_hour_row [] rows) d =
     \<lparr>cons = sum3 (map cons_wh (rows_on d rows)), prod = sum3 (map prod_wh (rows_on d rows))\<rparr>"
proof (induction rows arbitrary: d rule: rev_induct)
  case Nil
  show ?case by (simp add: acc_lookup_def rows_on_def sum3_Nil new_acc_def)
next
  case (snoc r rows)
  show ?case
    by (simp add: acc_lookup_add_hour_row snoc.IH rows_on_def sum3_snoc)
qed

lemma keys_foldl:
  "distinct (map fst (foldl add_hour_row [] rows)) \<and>
   set (map fst (foldl add_hour_row [] rows)) = dates_of rows"
proof (induction rows rule: rev_induct)
  case Nil
  show ?case by (simp add: dates_of_def)
next
  case (snoc r rows)
  then show ?case
    by (simp add: keys_add_hour_row distinct_add_hour_row dates_of_def)
qed

lemma sort_keys_foldl:
  "sort (map fst (foldl add_hour_row [] rows)) = sorted_list_of_set (dates_of rows)"
proof -
  let ?ks = "map fst (foldl add_hour_row [] rows)"
  have "sorted_list_of_set (set ?ks) = sort (remdups ?ks)"
    by (rule sorted_list_of_set_sort_remdups)
  moreover have "remdups ?ks = ?ks" using keys_foldl by (simp add: distinct_remdups_id)
  moreover have "set ?ks = dates_of rows" using keys_foldl by simp
  ultimately show ?thesis by simp
qed

lemma summarize_days_eq:
  "summarize_days rows = map (\<lambda>d. day_total d rows) (sorted_list_of_set (dates_of rows))"
  unfolding summarize_days_def Let_def sort_keys_foldl
  by (simp add: acc_lookup_foldl day_total_def)

lemma summarize_days_days:
  "map day (summarize_days rows) = sorted_list_of_set (dates_of rows)"
  unfolding summarize_days_eq by (simp add: o_def day_total_def)

lemma add_row_eq:
  "add_row acc r = (case to_hour_row r of Inl e \<Rightarrow> Inl e | Inr h \<Rightarrow> Inr (add_hour_row acc h))"
  by (simp add: add_row_def to_hour_row_def add_hour_row_def Let_def split: sum.splits)

lemma add_rows_eq:
  "add_rows acc rows =
     (case to_hour_rows rows of Inl e \<Rightarrow> Inl e | Inr hs \<Rightarrow> Inr (foldl add_hour_row acc hs))"
proof (induction rows arbitrary: acc)
  case Nil
  show ?case by simp
next
  case (Cons r rows)
  show ?case
  proof (cases "to_hour_row r")
    case (Inl e)
    then show ?thesis by (simp add: add_row_eq)
  next
    case (Inr h)
    then show ?thesis by (simp add: add_row_eq Cons.IH split: sum.splits)
  qed
qed

lemma daily_totals_wh_eq:
  "daily_totals_wh rows =
     (case to_hour_rows rows of
        Inl e \<Rightarrow> Inl e
      | Inr hs \<Rightarrow> Inr (map (\<lambda>d. day_total_wh d hs) (sorted_list_of_set (dates_of hs))))"
  unfolding daily_totals_wh_def add_rows_eq
  by (simp add: sort_keys_foldl acc_lookup_foldl day_total_wh_def split: sum.splits)






subsection \<open>Order of the input rows\<close>

lemma round_half_even_of_int: "round_half_even (of_int z) = z"
  by (simp add: round_half_even_def)

lemma floor_log2_of_nat_le:
  assumes "0 < n" "n < 2 ^ 53"
  shows "floor_log2 (of_nat n) \<le> 52"
proof -
  have "bitlen (int n) \<le> 53" using assms by (simp add: bitlen_le_iff_power)
  moreover have "bitlen 1 = 1" by (simp add: bitlen_alt_def)
  ultimately show ?thesis
    by (simp add: floor_log2_def Let_def)
qed

lemma to_double_exact:
  assumes "0 < a" and "a / 2 powi (max (floor_log2 a - 52) (- 1074)) = of_int z"
    and "a < 2 ^ 1024"
  shows "to_double a = Finite a"
proof -
  define p :: rat where "p = 2 powi (max (floor_log2 a - 52) (- 1074))"
  have ppos: "0 < p" by (simp add: p_def)
  have q: "a / p = of_int z" using assms(2) by (simp add: p_def)
  then have r: "of_int z * p = a" using ppos by (simp add: field_simps)
  have m: "round_half_even (a / p) = z" unfolding q by (rule round_half_even_of_int)
  have abs: "\<bar>a\<bar> = a" using assms(1) by simp
  have "to_double a =
     (let m = round_half_even (a / p); r = of_int m * p
      in if of_int (2 ^ 1024) \<le> r then (if a < 0 then NegInf else PosInf)
         else if a < 0 then (if r = 0 then NegZero else Finite (- r))
         else Finite r)"
    using assms(1) unfolding to_double_def Let_def abs p_def by simp
  also have "\<dots> = Finite a"
    unfolding Let_def m r using assms(1,3) by (simp add: not_le)
  finally show ?thesis .
qed

lemma to_double_of_nat:
  assumes "n < 2 ^ 53"
  shows "to_double (of_nat n) = Finite (of_nat n)"
proof (cases "n = 0")
  case True
  then show ?thesis by (simp add: to_double_def)
next
  case False
  define a :: rat where "a = of_nat n"
  define qe where "qe = max (floor_log2 a - 52) (- 1074)"
  have apos: "0 < a" using False by (simp add: a_def)
  have "floor_log2 a \<le> 52" unfolding a_def using floor_log2_of_nat_le[of n] False assms by simp
  then have qe: "qe \<le> 0" by (simp add: qe_def)
  define k where "k = nat (- qe)"
  have powi: "(2::rat) powi qe = 1 / 2 ^ k"
    using qe by (simp add: power_int_def k_def field_simps)
  have quot: "a / 2 powi qe = of_int (int n * 2 ^ k)"
    by (simp add: powi a_def)
  have "n < 2 ^ 1024" using assms by (rule less_trans) simp
  then have small: "a < 2 ^ 1024" unfolding a_def
    by (metis of_nat_less_iff of_nat_numeral of_nat_power)
  show ?thesis
    using to_double_exact[OF apos quot[unfolded qe_def] small] by (simp add: a_def)
qed

lemma is_whole_eq: "is_whole x \<Longrightarrow> x = Finite (of_nat (whole_of x))"
  by (cases x) (auto simp: of_nat_nat)

lemma float_sum_whole:
  "list_all is_whole xs \<Longrightarrow> sum_list (map whole_of xs) < 2 ^ 53 \<Longrightarrow>
   float_sum xs = Finite (of_nat (sum_list (map whole_of xs)))"
proof (induction xs rule: rev_induct)
  case Nil
  show ?case by (simp add: float_sum_def)
next
  case (snoc x xs)
  have x: "x = Finite (of_nat (whole_of x))" using snoc.prems(1) by (simp add: is_whole_eq)
  have ih: "float_sum xs = Finite (of_nat (sum_list (map whole_of xs)))"
    using snoc by simp
  have "float_sum (xs @ [x]) = float_add (Finite (of_nat (sum_list (map whole_of xs)))) (Finite (of_nat (whole_of x)))"
    using ih x by (simp add: float_sum_snoc)
  also have "\<dots> = to_double (of_nat (sum_list (map whole_of xs) + whole_of x))"
    by simp
  also have "\<dots> = Finite (of_nat (sum_list (map whole_of xs) + whole_of x))"
    using snoc.prems(2) by (intro to_double_of_nat) simp
  finally show ?case by simp
qed

lemma float_sum_whole_perm:
  assumes "mset ys = mset xs" "list_all is_whole xs" "sum_list (map whole_of xs) < 2 ^ 53"
  shows "float_sum ys = float_sum xs"
proof -
  have s: "sum_list (map whole_of ys) = sum_list (map whole_of xs)"
    using assms(1) by (metis mset_map sum_mset_sum_list)
  have w: "list_all is_whole ys"
    using assms(1,2) by (metis list_all_iff mset_eq_setD)
  show ?thesis
    using float_sum_whole[OF w] float_sum_whole[OF assms(2,3)] s assms(3) by simp
qed

lemma wh_values_alt: "wh_values rows = concat (map row_values rows)"
  by (simp add: wh_values_def row_values_def [abs_def])

lemma dates_of_perm:
  assumes "mset rows' = mset rows"
  shows "dates_of rows' = dates_of rows"
proof -
  have "set rows' = set rows" using assms by (rule mset_eq_setD)
  then show ?thesis by (simp add: dates_of_def)
qed

lemma rows_on_perm:
  assumes "mset rows' = mset rows"
  shows "mset (rows_on d rows') = mset (rows_on d rows)"
proof -
  have "mset (rows_on d rows') = filter_mset (\<lambda>r. date_of (timestamp r) = d) (mset rows')"
    by (simp add: rows_on_def)
  moreover have "mset (rows_on d rows) = filter_mset (\<lambda>r. date_of (timestamp r) = d) (mset rows)"
    by (simp add: rows_on_def)
  ultimately show ?thesis using assms by simp
qed

lemma column_whole:
  assumes "\<And>r. sel r \<in> set (row_values r)" "list_all is_whole (wh_values rows)"
  shows "list_all is_whole (map sel (filter P rows))"
proof -
  have "is_whole (sel r)" if "r \<in> set rows" for r
  proof -
    have "sel r \<in> set (wh_values rows)"
      unfolding wh_values_alt using that assms(1)[of r] by auto
    then show ?thesis using assms(2) by (simp add: list_all_iff)
  qed
  then show ?thesis by (simp add: list_all_iff)
qed

lemma whole_of_le_sum: "x \<in> set xs \<Longrightarrow> whole_of x \<le> sum_list (map whole_of xs)"
  by (induction xs) auto

lemma column_sum_le:
  assumes "\<And>r. sel r \<in> set (row_values r)"
  shows "sum_list (map whole_of (map sel (filter P rows))) \<le> sum_list (map whole_of (wh_values rows))"
proof (induction rows)
  case Nil
  show ?case by (simp add: wh_values_alt)
next
  case (Cons r rows)
  have "whole_of (sel r) \<le> sum_list (map whole_of (row_values r))"
    using assms by (rule whole_of_le_sum)
  then show ?case using Cons by (simp add: wh_values_alt)
qed

lemma column_perm:
  assumes sel: "\<And>r. sel r \<in> set (row_values r)"
    and perm: "mset rows' = mset rows" and whole: "whole_rows rows"
  shows "float_sum (map sel (rows_on d rows')) = float_sum (map sel (rows_on d rows))"
proof -
  have w: "list_all is_whole (map sel (rows_on d rows))"
    unfolding rows_on_def using sel whole by (intro column_whole) (simp_all add: whole_rows_def)
  have "sum_list (map whole_of (map sel (rows_on d rows))) \<le> sum_list (map whole_of (wh_values rows))"
    unfolding rows_on_def using sel by (rule column_sum_le)
  then have b: "sum_list (map whole_of (map sel (rows_on d rows))) < 2 ^ 53"
    using whole by (simp add: whole_rows_def)
  have m: "mset (map sel (rows_on d rows')) = mset (map sel (rows_on d rows))"
    using rows_on_perm[OF perm, of d] by (metis mset_map)
  show ?thesis using m w b by (rule float_sum_whole_perm)
qed

lemma sel_mem:
  "fst (cons_wh r) \<in> set (row_values r)"
  "fst (snd (cons_wh r)) \<in> set (row_values r)"
  "snd (snd (cons_wh r)) \<in> set (row_values r)"
  "fst (prod_wh r) \<in> set (row_values r)"
  "fst (snd (prod_wh r)) \<in> set (row_values r)"
  "snd (snd (prod_wh r)) \<in> set (row_values r)"
  by (cases "cons_wh r"; cases "prod_wh r"; simp add: row_values_def)+

lemma sum3_alt:
  "sum3 (map f rows) =
     (float_sum (map (\<lambda>r. fst (f r)) rows), float_sum (map (\<lambda>r. fst (snd (f r))) rows),
      float_sum (map (\<lambda>r. snd (snd (f r))) rows))"
  by (simp add: sum3_def o_def)

lemma sum3_perm:
  assumes "mset rows' = mset rows" "whole_rows rows"
  shows "sum3 (map cons_wh (rows_on d rows')) = sum3 (map cons_wh (rows_on d rows))"
    and "sum3 (map prod_wh (rows_on d rows')) = sum3 (map prod_wh (rows_on d rows))"
proof -
  have c1: "float_sum (map (\<lambda>r. fst (cons_wh r)) (rows_on d rows')) =
            float_sum (map (\<lambda>r. fst (cons_wh r)) (rows_on d rows))"
    by (rule column_perm[OF sel_mem(1) assms])
  have c2: "float_sum (map (\<lambda>r. fst (snd (cons_wh r))) (rows_on d rows')) =
            float_sum (map (\<lambda>r. fst (snd (cons_wh r))) (rows_on d rows))"
    by (rule column_perm[OF sel_mem(2) assms])
  have c3: "float_sum (map (\<lambda>r. snd (snd (cons_wh r))) (rows_on d rows')) =
            float_sum (map (\<lambda>r. snd (snd (cons_wh r))) (rows_on d rows))"
    by (rule column_perm[OF sel_mem(3) assms])
  have p1: "float_sum (map (\<lambda>r. fst (prod_wh r)) (rows_on d rows')) =
            float_sum (map (\<lambda>r. fst (prod_wh r)) (rows_on d rows))"
    by (rule column_perm[OF sel_mem(4) assms])
  have p2: "float_sum (map (\<lambda>r. fst (snd (prod_wh r))) (rows_on d rows')) =
            float_sum (map (\<lambda>r. fst (snd (prod_wh r))) (rows_on d rows))"
    by (rule column_perm[OF sel_mem(5) assms])
  have p3: "float_sum (map (\<lambda>r. snd (snd (prod_wh r))) (rows_on d rows')) =
            float_sum (map (\<lambda>r. snd (snd (prod_wh r))) (rows_on d rows))"
    by (rule column_perm[OF sel_mem(6) assms])
  show "sum3 (map cons_wh (rows_on d rows')) = sum3 (map cons_wh (rows_on d rows))"
    unfolding sum3_alt c1 c2 c3 ..
  show "sum3 (map prod_wh (rows_on d rows')) = sum3 (map prod_wh (rows_on d rows))"
    unfolding sum3_alt p1 p2 p3 ..
qed

lemma summarize_days_whole_perm:
  assumes "mset rows' = mset rows" "whole_rows rows"
  shows "summarize_days rows' = summarize_days rows"
proof -
  have "day_total d rows' = day_total d rows" for d
    unfolding day_total_def sum3_perm[OF assms] ..
  then show ?thesis
    unfolding summarize_days_eq dates_of_perm[OF assms(1)] by simp
qed

lemma summarize_days_order_perm:
  assumes "mset rows' = mset rows" "\<forall>d. rows_on d rows' = rows_on d rows"
  shows "summarize_days rows' = summarize_days rows"
proof -
  have "rows_on d rows' = rows_on d rows" for d using assms(2) by blast
  then have "day_total d rows' = day_total d rows" for d
    unfolding day_total_def by simp
  then show ?thesis
    unfolding summarize_days_eq dates_of_perm[OF assms(1)] by simp
qed

lemma float_of_int_exact:
  assumes "0 \<le> n" "n < 2 ^ 53"
  shows "float_of_int n = Inr (Finite (of_int n))"
proof -
  have "nat n < 2 ^ 53" using assms by (simp add: nat_less_iff)
  then have "to_double (of_nat (nat n)) = Finite (of_nat (nat n))" by (rule to_double_of_nat)
  moreover have "(of_nat (nat n) :: rat) = of_int n" using assms(1) by simp
  ultimately show ?thesis by (simp add: float_of_int_def)
qed

lemma int_le_sum_list:
  "list_all (\<lambda>n. 0 \<le> n) ns \<Longrightarrow> (n::int) \<in> set ns \<Longrightarrow> n \<le> sum_list ns"
proof (induction ns)
  case Nil
  then show ?case by simp
next
  case (Cons m ns)
  have "0 \<le> sum_list ns" using Cons.prems(1) by (auto simp: list_all_iff intro: sum_list_nonneg)
  then show ?case using Cons by auto
qed

lemma row_int_bounds:
  assumes "whole_rows_d rows" "n \<in> set (row_ints rows)"
  shows "0 \<le> n \<and> n < 2 ^ 53"
proof -
  have nn: "list_all (\<lambda>n. 0 \<le> n) (row_ints rows)" and b: "sum_list (row_ints rows) < 2 ^ 53"
    using assms(1) by (simp_all add: whole_rows_d_def)
  have "n \<le> sum_list (row_ints rows)" using nn assms(2) by (rule int_le_sum_list)
  moreover have "0 \<le> n" using nn assms(2) by (simp add: list_all_iff)
  ultimately show ?thesis using b by simp
qed

lemma float3_exact:
  assumes "\<And>n. n \<in> set (int_values t) \<Longrightarrow> 0 \<le> n \<and> n < 2 ^ 53"
  shows "float3 t = Inr (fin3 t)"
proof (cases t)
  case (fields n1 n2 n3)
  have "float_of_int n1 = Inr (Finite (of_int n1))" "float_of_int n2 = Inr (Finite (of_int n2))"
    "float_of_int n3 = Inr (Finite (of_int n3))"
    using assms fields by (simp_all add: float_of_int_exact)
  then show ?thesis using fields by simp
qed

lemma to_hour_row_exact:
  assumes "whole_rows_d rows" "r \<in> set rows"
  shows "to_hour_row r = Inr (exact_hour_row r)"
proof -
  have mem: "set (int_values (consumption_wh r)) \<union> set (int_values (production_wh r))
               \<subseteq> set (row_ints rows)"
    using assms(2) by (auto simp: row_ints_def)
  have c: "float3 (consumption_wh r) = Inr (fin3 (consumption_wh r))"
    using mem row_int_bounds[OF assms(1)] by (intro float3_exact) blast
  have p: "float3 (production_wh r) = Inr (fin3 (production_wh r))"
    using mem row_int_bounds[OF assms(1)] by (intro float3_exact) blast
  show ?thesis by (simp add: to_hour_row_def c p exact_hour_row_def)
qed

lemma to_hour_rows_exact:
  "(\<And>r. r \<in> set rows \<Longrightarrow> to_hour_row r = Inr (exact_hour_row r)) \<Longrightarrow>
   to_hour_rows rows = Inr (map exact_hour_row rows)"
  by (induction rows) simp_all

lemma row_values_exact:
  "row_values (exact_hour_row r) =
     map (\<lambda>n. Finite (of_int n)) (int_values (consumption_wh r) @ int_values (production_wh r))"
  by (cases "consumption_wh r"; cases "production_wh r")
     (simp add: row_values_def exact_hour_row_def)

lemma wh_values_exact:
  "wh_values (map exact_hour_row rows) = map (\<lambda>n. Finite (of_int n)) (row_ints rows)"
  by (induction rows) (simp_all add: wh_values_alt row_values_exact row_ints_def)

lemma sum_list_nat_nonneg:
  "list_all (\<lambda>n. 0 \<le> n) ns \<Longrightarrow> int (sum_list (map nat ns)) = sum_list ns"
  by (induction ns) simp_all

lemma whole_rows_exact:
  assumes "whole_rows_d rows"
  shows "whole_rows (map exact_hour_row rows)"
proof -
  have nn: "list_all (\<lambda>n. 0 \<le> n) (row_ints rows)" and b: "sum_list (row_ints rows) < 2 ^ 53"
    using assms by (simp_all add: whole_rows_d_def)
  have w: "list_all is_whole (map (\<lambda>n. Finite (of_int n)) (row_ints rows))"
    using nn by (simp add: list_all_iff)
  have m: "map whole_of (map (\<lambda>n. Finite (of_int n)) (row_ints rows)) = map nat (row_ints rows)"
    by (simp add: o_def)
  have "int (sum_list (map whole_of (map (\<lambda>n. Finite (of_int n)) (row_ints rows))))
               = sum_list (row_ints rows)"
    unfolding m using nn by (rule sum_list_nat_nonneg)
  then have "int (sum_list (map whole_of (map (\<lambda>n. Finite (of_int n)) (row_ints rows)))) < 2 ^ 53"
    using b by (simp only:)
  then have s: "sum_list (map whole_of (map (\<lambda>n. Finite (of_int n)) (row_ints rows))) < 2 ^ 53"
    by simp
  show ?thesis unfolding whole_rows_def wh_values_exact using w s by simp
qed

lemma daily_totals_wh_whole_perm:
  assumes perm: "mset rows' = mset rows" and whole: "whole_rows_d rows"
  shows "daily_totals_wh rows' = daily_totals_wh rows"
proof -
  let ?hs = "map exact_hour_row rows" and ?hs' = "map exact_hour_row rows'"
  have set_eq: "set rows' = set rows" using perm by (rule mset_eq_setD)
  have a: "to_hour_rows rows = Inr ?hs"
    using to_hour_row_exact[OF whole] by (intro to_hour_rows_exact)
  have a': "to_hour_rows rows' = Inr ?hs'"
    using to_hour_row_exact[OF whole] set_eq by (intro to_hour_rows_exact) simp
  have hperm: "mset ?hs' = mset ?hs" using perm by (metis mset_map)
  have hwhole: "whole_rows ?hs" using whole by (rule whole_rows_exact)
  have "day_total_wh d ?hs' = day_total_wh d ?hs" for d
    unfolding day_total_wh_def sum3_perm[OF hperm hwhole] ..
  then show ?thesis
    unfolding daily_totals_wh_eq a a' by (simp add: dates_of_perm[OF hperm])
qed

text \<open>
  C2 (as amended). For every list of rows and every permutation of it, the aggregation
  yields the same sequence of dates. The totals are the same as well when the permutation
  keeps the rows of each date in their order, and when all values are whole and their sum
  is below \<open>2 ^ 53\<close> (then every float addition is exact); under the latter condition
  the aggregator of Task D is invariant too.
\<close>

theorem aggregation_permutation:
  "(mset rows' = mset rows \<longrightarrow>
      map day (summarize_days rows') = map day (summarize_days rows)
      \<and> ((\<forall>d. rows_on d rows' = rows_on d rows) \<longrightarrow> summarize_days rows' = summarize_days rows)
      \<and> (whole_rows rows \<longrightarrow> summarize_days rows' = summarize_days rows))
   \<and> (mset drows' = mset drows \<and> whole_rows_d drows \<longrightarrow>
        daily_totals_wh drows' = daily_totals_wh drows)"
proof (intro conjI impI allI)
  assume "mset rows' = mset rows"
  then have "dates_of rows' = dates_of rows" by (rule dates_of_perm)
  then show "map day (summarize_days rows') = map day (summarize_days rows)"
    by (simp only: summarize_days_days)
next
  assume "mset rows' = mset rows" "\<forall>d. rows_on d rows' = rows_on d rows"
  then show "summarize_days rows' = summarize_days rows" by (rule summarize_days_order_perm)
next
  assume "mset rows' = mset rows" "whole_rows rows"
  then show "summarize_days rows' = summarize_days rows" by (rule summarize_days_whole_perm)
next
  assume "mset drows' = mset drows \<and> whole_rows_d drows"
  then have "mset drows' = mset drows" "whole_rows_d drows" by blast+
  then show "daily_totals_wh drows' = daily_totals_wh drows"
    by (rule daily_totals_wh_whole_perm)
qed

theorem aggregation_permutation_witness:
  "mset [hour_row (2025, 10, 14) 500, hour_row (2025, 10, 13) 1000]
     = mset [hour_row (2025, 10, 13) 1000, hour_row (2025, 10, 14) 500]
   \<and> (\<forall>d. rows_on d [hour_row (2025, 10, 14) 500, hour_row (2025, 10, 13) 1000]
           = rows_on d [hour_row (2025, 10, 13) 1000, hour_row (2025, 10, 14) 500])
   \<and> whole_rows [hour_row (2025, 10, 13) 1000, hour_row (2025, 10, 14) 500]
   \<and> summarize_days [hour_row (2025, 10, 14) 500, hour_row (2025, 10, 13) 1000]
       = summarize_days [hour_row (2025, 10, 13) 1000, hour_row (2025, 10, 14) 500]
   \<and> mset [int_row (2025, 10, 13) 500, int_row (2025, 10, 13) 1000]
       = mset [int_row (2025, 10, 13) 1000, int_row (2025, 10, 13) 500]
   \<and> whole_rows_d [int_row (2025, 10, 13) 1000, int_row (2025, 10, 13) 500]
   \<and> daily_totals_wh [int_row (2025, 10, 13) 500, int_row (2025, 10, 13) 1000]
       = daily_totals_wh [int_row (2025, 10, 13) 1000, int_row (2025, 10, 13) 500]"
proof -
  let ?a = "hour_row (2025, 10, 13) 1000" and ?b = "hour_row (2025, 10, 14) 500"
  let ?c = "int_row (2025, 10, 13) 1000" and ?d = "int_row (2025, 10, 13) 500"
  have p: "mset [?b, ?a] = mset [?a, ?b]" by (simp add: add_mset_commute)
  have o: "\<forall>d. rows_on d [?b, ?a] = rows_on d [?a, ?b]"
    by (simp add: rows_on_def hour_row_def mk_datetime_def date_of_def)
  have w: "whole_rows [?a, ?b]"
    by (simp add: whole_rows_def wh_values_def hour_row_def)
  have pd: "mset [?d, ?c] = mset [?c, ?d]" by (simp add: add_mset_commute)
  have wd: "whole_rows_d [?c, ?d]"
    by (simp add: whole_rows_d_def row_ints_def int_row_def)
  show ?thesis
    using aggregation_permutation [of "[?b, ?a]" "[?a, ?b]" "[?d, ?c]" "[?c, ?d]"] p o w pd wd
    by blast
qed

text \<open>
  Float addition rounds, so the order of the rows of one day can change a total: with the
  values \<open>2 ^ 53\<close>, 1 and 1 in consumption phase 1 on the same day, reading the large
  value first gives \<open>2 ^ 53\<close> Wh, reading it last gives \<open>2 ^ 53 + 2\<close> Wh.
\<close>

theorem aggregation_permutation_counterexample:
  "mset [hour_row (2025, 10, 13) 1, hour_row (2025, 10, 13) 1,
         hour_row (2025, 10, 13) 9007199254740992]
     = mset [hour_row (2025, 10, 13) 9007199254740992, hour_row (2025, 10, 13) 1,
             hour_row (2025, 10, 13) 1]
   \<and> map cons_kwh (summarize_days [hour_row (2025, 10, 13) 9007199254740992,
          hour_row (2025, 10, 13) 1, hour_row (2025, 10, 13) 1])
       = [(Finite (4611686018427388 / 512), Finite 0, Finite 0)]
   \<and> map cons_kwh (summarize_days [hour_row (2025, 10, 13) 1, hour_row (2025, 10, 13) 1,
          hour_row (2025, 10, 13) 9007199254740992])
       = [(Finite (4611686018427389 / 512), Finite 0, Finite 0)]"
proof (intro conjI)
  show "mset [hour_row (2025, 10, 13) 1, hour_row (2025, 10, 13) 1,
         hour_row (2025, 10, 13) 9007199254740992]
     = mset [hour_row (2025, 10, 13) 9007199254740992, hour_row (2025, 10, 13) 1,
             hour_row (2025, 10, 13) 1]"
    by (simp add: add_mset_commute)
  show "map cons_kwh (summarize_days [hour_row (2025, 10, 13) 9007199254740992,
          hour_row (2025, 10, 13) 1, hour_row (2025, 10, 13) 1])
       = [(Finite (4611686018427388 / 512), Finite 0, Finite 0)]"
    by code_simp
  show "map cons_kwh (summarize_days [hour_row (2025, 10, 13) 1, hour_row (2025, 10, 13) 1,
          hour_row (2025, 10, 13) 9007199254740992])
       = [(Finite (4611686018427389 / 512), Finite 0, Finite 0)]"
    by code_simp
qed

subsection \<open>Formats of dates and decimals\<close>

lemma is_digit_digit_char: "is_digit (digit_char n)"
proof -
  have "n mod 10 < length ''0123456789''" by simp
  then have "''0123456789'' ! (n mod 10) \<in> set ''0123456789''" by (rule nth_mem)
  then show ?thesis unfolding digit_char_def is_digit_def .
qed

lemma dec_nat_digits: "list_all is_digit (dec_nat n)"
proof (induction n rule: dec_nat.induct)
  case (1 n)
  show ?case
  proof (cases "n < 10")
    case True
    then show ?thesis by (subst dec_nat.simps) (simp add: is_digit_digit_char)
  next
    case False
    then show ?thesis using 1 by (subst dec_nat.simps) (simp add: is_digit_digit_char)
  qed
qed

lemma dec_nat_length_1: "n < 10 \<Longrightarrow> length (dec_nat n) = 1"
  by (subst dec_nat.simps) simp

lemma dec_nat_length_2: "10 \<le> n \<Longrightarrow> n < 100 \<Longrightarrow> length (dec_nat n) = 2"
  by (subst dec_nat.simps) (simp add: dec_nat_length_1)

lemma dec_nat_length_3: "100 \<le> n \<Longrightarrow> n < 1000 \<Longrightarrow> length (dec_nat n) = 3"
  by (subst dec_nat.simps) (simp add: dec_nat_length_2)

lemma dec_nat_length_4: "1000 \<le> n \<Longrightarrow> n < 10000 \<Longrightarrow> length (dec_nat n) = 4"
  by (subst dec_nat.simps) (simp add: dec_nat_length_3)

lemma dec_nat_nonempty: "dec_nat n \<noteq> []"
  by (subst dec_nat.simps) simp

lemma pad2_length: "n < 100 \<Longrightarrow> length (pad2 n) = 2"
  by (cases "n < 10") (simp_all add: pad2_def dec_nat_length_1 dec_nat_length_2)

lemma pad2_digits: "list_all is_digit (pad2 n)"
  by (simp add: pad2_def dec_nat_digits is_digit_def)

lemma replace_char_append:
  "replace_char c new (xs @ ys) = replace_char c new xs @ replace_char c new ys"
  by (simp add: replace_char_def)

lemma replace_char_absent: "c \<notin> set s \<Longrightarrow> replace_char c new s = s"
  by (induction s) (auto simp: replace_char_def)

lemma digits_no_char: "list_all is_digit s \<Longrightarrow> \<not> is_digit c \<Longrightarrow> c \<notin> set s"
  by (auto simp: list_all_iff)

lemma not_digit_punct:
  "\<not> is_digit CHR ''.''" "\<not> is_digit CHR '',''" "\<not> is_digit CHR ''-''"
  by (simp_all add: is_digit_def)

lemma replace_format_2f:
  "replace_char CHR ''.'' '','' (format_2f (Finite q)) =
     (if q < 0 then ''-'' else []) @
     dec_nat (nat (round_half_even (\<bar>q\<bar> * 100)) div 100) @ '','' @
     pad2 (nat (round_half_even (\<bar>q\<bar> * 100)) mod 100)"
proof -
  define n where "n = nat (round_half_even (\<bar>q\<bar> * 100))"
  define sign where "sign = (if q < 0 then ''-'' else [])"
  have a: "replace_char CHR ''.'' '','' (dec_nat (n div 100)) = dec_nat (n div 100)"
    by (intro replace_char_absent digits_no_char[OF dec_nat_digits] not_digit_punct)
  have b: "replace_char CHR ''.'' '','' (pad2 (n mod 100)) = pad2 (n mod 100)"
    by (intro replace_char_absent digits_no_char[OF pad2_digits] not_digit_punct)
  have c: "replace_char CHR ''.'' '','' sign = sign"
    by (simp add: sign_def replace_char_def)
  have d: "replace_char CHR ''.'' '','' ''.'' = '',''"
    by (simp add: replace_char_def)
  have "format_2f (Finite q) = sign @ dec_nat (n div 100) @ ''.'' @ pad2 (n mod 100)"
    by (simp add: Let_def n_def sign_def)
  then have "replace_char CHR ''.'' '','' (format_2f (Finite q)) =
      sign @ dec_nat (n div 100) @ '','' @ pad2 (n mod 100)"
    by (simp only: replace_char_append a b c d)
  then show ?thesis by (simp only: n_def sign_def)
qed

lemma is_fi_decimal_shape:
  assumes "sign = ''-'' \<or> sign = []"
    and "list_all is_digit ds" "ds \<noteq> []" "is_digit f1" "is_digit f2"
  shows "is_fi_decimal (sign @ ds @ '','' @ [f1, f2])"
proof -
  have tw: "takeWhile is_digit (ds @ '','' @ [f1, f2]) = ds"
    using assms(2) by (simp add: takeWhile_append2 list_all_iff not_digit_punct)
  have dw: "dropWhile is_digit (ds @ '','' @ [f1, f2]) = '','' @ [f1, f2]"
    using assms(2) by (simp add: dropWhile_append2 list_all_iff not_digit_punct)
  have body: "(case sign @ ds @ '','' @ [f1, f2] of c # cs \<Rightarrow> if c = CHR ''-'' then cs else sign @ ds @ '','' @ [f1, f2] | [] \<Rightarrow> sign @ ds @ '','' @ [f1, f2])
        = ds @ '','' @ [f1, f2]"
  proof (cases "sign = []")
    case True
    obtain d ds' where ds: "ds = d # ds'" using assms(3) by (cases ds) auto
    then have "is_digit d" using assms(2) by simp
    then have "d \<noteq> CHR ''-''" using not_digit_punct(3) by auto
    then show ?thesis using True ds by simp
  next
    case False
    then have "sign = ''-''" using assms(1) by simp
    then show ?thesis by simp
  qed
  show ?thesis
    unfolding is_fi_decimal_def Let_def body tw dw using assms by simp
qed

lemma pad2_two:
  assumes "n < 100"
  shows "\<exists>f1 f2. pad2 n = [f1, f2] \<and> is_digit f1 \<and> is_digit f2"
proof -
  have "length (pad2 n) = 2" using assms by (rule pad2_length)
  then obtain f1 f2 where p: "pad2 n = [f1, f2]"
    by (cases "pad2 n"; cases "tl (pad2 n)") auto
  have "list_all is_digit (pad2 n)" by (rule pad2_digits)
  then show ?thesis using p by simp
qed

lemma finite_decimal_format:
  "is_fi_decimal (replace_char CHR ''.'' '','' (format_2f (Finite q))) \<and>
   CHR ''.'' \<notin> set (replace_char CHR ''.'' '','' (format_2f (Finite q)))"
proof -
  let ?n = "nat (round_half_even (\<bar>q\<bar> * 100))"
  let ?sign = "if q < 0 then ''-'' else []"
  obtain f1 f2 where p: "pad2 (?n mod 100) = [f1, f2]" "is_digit f1" "is_digit f2"
    using pad2_two[of "?n mod 100"] by auto
  have shape: "is_fi_decimal (?sign @ dec_nat (?n div 100) @ '','' @ [f1, f2])"
    by (rule is_fi_decimal_shape[OF _ dec_nat_digits dec_nat_nonempty p(2,3)]) simp
  have nodot: "CHR ''.'' \<notin> set (?sign @ dec_nat (?n div 100) @ '','' @ [f1, f2])"
    using digits_no_char[OF dec_nat_digits not_digit_punct(1), of "?n div 100"] p(2,3)
      not_digit_punct(1) by auto
  show ?thesis
    unfolding replace_format_2f p(1) using shape nodot by simp
qed

lemma negzero_decimal_format:
  "is_fi_decimal (replace_char CHR ''.'' '','' (format_2f NegZero)) \<and>
   CHR ''.'' \<notin> set (replace_char CHR ''.'' '','' (format_2f NegZero))"
  by (simp add: replace_char_def is_fi_decimal_def is_digit_def)

lemma decimal_format:
  "is_finite v \<Longrightarrow>
     is_fi_decimal (replace_char CHR ''.'' '','' (format_2f v)) \<and>
     CHR ''.'' \<notin> set (replace_char CHR ''.'' '','' (format_2f v))"
proof (cases v)
  case (Finite q)
  then show ?thesis using finite_decimal_format[of q] by simp
next
  case NegZero
  then show ?thesis using negzero_decimal_format by simp
qed simp_all

lemma dec_nat_year_length:
  "y < 10000 \<Longrightarrow>
     length (dec_nat y) = (if y < 10 then 1 else if y < 100 then 2 else if y < 1000 then 3 else 4)"
  by (simp add: dec_nat_length_1 dec_nat_length_2 dec_nat_length_3 dec_nat_length_4)

text \<open>
  C7 (as amended). Task E's \<open>fi_date\<close> renders every date as two zero-padded digits of
  the day, a dot, two zero-padded digits of the month, a dot and the year without padding:
  four digits exactly for the years from 1000 on, and one, two or three digits for the
  years before 10, 100 and 1000. Task F's \<open>fmt_date\<close> renders the day, the month and the
  year without padding, so a day or a month before 10 has one digit. Every decimal
  quantity that is a number (neither an infinity nor NaN; the negative zero is one) is
  rendered by \<open>fi_number\<close>, \<open>kwh_str_from_wh\<close> and \<open>_fmt_decimal\<close> as an optional minus sign,
  digits, a comma and exactly two fraction digits, and no dot.
\<close>

theorem report_formats:
  "(valid_date (y, m, d) \<longrightarrow>
       fi_date (y, m, d) = pad2 d @ ''.'' @ pad2 m @ ''.'' @ dec_nat y
       \<and> length (pad2 d) = 2 \<and> length (pad2 m) = 2
       \<and> list_all is_digit (pad2 d @ pad2 m @ dec_nat y)
       \<and> length (dec_nat y)
           = (if y < 10 then 1 else if y < 100 then 2 else if y < 1000 then 3 else 4)
       \<and> fmt_date (y, m, d) = dec_nat d @ ''.'' @ dec_nat m @ ''.'' @ dec_nat y
       \<and> length (dec_nat d) = (if d < 10 then 1 else 2)
       \<and> length (dec_nat m) = (if m < 10 then 1 else 2))
   \<and> (is_finite v \<longrightarrow>
        is_fi_decimal (fi_number v) \<and> CHR ''.'' \<notin> set (fi_number v)
        \<and> is_fi_decimal (fmt_decimal v) \<and> CHR ''.'' \<notin> set (fmt_decimal v))
   \<and> (is_finite (float_div x 1000) \<longrightarrow>
        is_fi_decimal (kwh_str_from_wh x) \<and> CHR ''.'' \<notin> set (kwh_str_from_wh x))"
proof -
  have dates: "fi_date (y, m, d) = pad2 d @ ''.'' @ pad2 m @ ''.'' @ dec_nat y
       \<and> length (pad2 d) = 2 \<and> length (pad2 m) = 2
       \<and> list_all is_digit (pad2 d @ pad2 m @ dec_nat y)
       \<and> length (dec_nat y)
           = (if y < 10 then 1 else if y < 100 then 2 else if y < 1000 then 3 else 4)
       \<and> fmt_date (y, m, d) = dec_nat d @ ''.'' @ dec_nat m @ ''.'' @ dec_nat y
       \<and> length (dec_nat d) = (if d < 10 then 1 else 2)
       \<and> length (dec_nat m) = (if m < 10 then 1 else 2)"
    if v: "valid_date (y, m, d)"
  proof -
    have b: "d < 100" "m < 100" "y < 10000" using v by (simp_all add: valid_date_def)
    have yl: "length (dec_nat y)
           = (if y < 10 then 1 else if y < 100 then 2 else if y < 1000 then 3 else 4)"
      using b(3) by (rule dec_nat_year_length)
    have dl: "length (dec_nat d) = (if d < 10 then 1 else 2)"
      using b(1) by (simp add: dec_nat_length_1 dec_nat_length_2)
    have ml: "length (dec_nat m) = (if m < 10 then 1 else 2)"
      using b(2) by (simp add: dec_nat_length_1 dec_nat_length_2)
    have f: "fi_date (y, m, d) = pad2 d @ ''.'' @ pad2 m @ ''.'' @ dec_nat y"
      "fmt_date (y, m, d) = dec_nat d @ ''.'' @ dec_nat m @ ''.'' @ dec_nat y"
      by (simp_all add: fi_date_def fmt_date_def)
    have p: "length (pad2 d) = 2" "length (pad2 m) = 2"
      using b by (simp_all add: pad2_length)
    have g: "list_all is_digit (pad2 d @ pad2 m @ dec_nat y)"
      by (simp add: pad2_digits dec_nat_digits)
    show ?thesis using yl dl ml f p g by (simp only: simp_thms)
  qed
  have num: "is_fi_decimal (fi_number v) \<and> CHR ''.'' \<notin> set (fi_number v)
        \<and> is_fi_decimal (fmt_decimal v) \<and> CHR ''.'' \<notin> set (fmt_decimal v)"
    if "is_finite v"
    using decimal_format[OF that] by (simp add: fi_number_def fmt_decimal_def)
  have kwh: "is_fi_decimal (kwh_str_from_wh x) \<and> CHR ''.'' \<notin> set (kwh_str_from_wh x)"
    if "is_finite (float_div x 1000)"
    using decimal_format[OF that] by (simp add: kwh_str_from_wh_def)
  show ?thesis
    using dates num kwh by blast
qed

theorem report_formats_witness:
  "valid_date (2025, 11, 1) \<and> is_finite (Finite 24) \<and> is_finite (float_div (Finite 24000) 1000)
   \<and> fi_date (2025, 11, 1) = ''01.11.2025'' \<and> length (dec_nat 2025) = 4
   \<and> is_fi_decimal (fi_number (Finite 24)) \<and> fi_number (Finite 24) = ''24,00''
   \<and> is_fi_decimal (kwh_str_from_wh (Finite 24000)) \<and> kwh_str_from_wh (Finite 24000) = ''24,00''"
proof -
  have v: "valid_date (2025, 11, 1)" by (simp add: valid_date_def)
  have f: "float_div (Finite 24000) 1000 = Finite 24" by code_simp
  have e1: "fi_date (2025, 11, 1) = ''01.11.2025''" by code_simp
  have e2: "fi_number (Finite 24) = ''24,00''" by code_simp
  have e3: "kwh_str_from_wh (Finite 24000) = ''24,00''" by code_simp
  show ?thesis
    using report_formats [of 2025 11 1 "Finite 24" "Finite 24000"] v f e1 e2 e3 by simp
qed

text \<open>
  Task F writes the first of November 2025 as \<open>1.11.2025\<close>; Task E writes the ninth of
  December of the year 5 as \<open>09.12.5\<close>, with a year of one digit; an infinite quantity is
  rendered as \<open>inf\<close>, without fraction digits; and the negative zero keeps its sign.
\<close>

theorem report_formats_counterexample:
  "fmt_date (2025, 11, 1) = ''1.11.2025''
   \<and> valid_date (5, 12, 9) \<and> fi_date (5, 12, 9) = ''09.12.5''
   \<and> fi_number PosInf = ''inf'' \<and> \<not> is_fi_decimal (fi_number PosInf)
   \<and> fi_number NegZero = ''-0,00'' \<and> kwh_str_from_wh NegZero = ''-0,00''"
  by code_simp

subsection \<open>The report for a range of days\<close>

lemma daily_period_sym: "daily_period a b = daily_period b a"
  by (auto simp: daily_period_def)

text \<open>
  C10. Task F's daily-range report is symmetric in its two dates: the period, the selected
  measurements, the consumption and production totals, the average temperature and the
  lines of the report for the dates (a, b) equal those for (b, a).
\<close>

theorem daily_report_symmetric:
  "daily_period a b = daily_period b a
   \<and> daily_selected data a b = daily_selected data b a
   \<and> py_sum (map consumption (daily_selected data a b))
       = py_sum (map consumption (daily_selected data b a))
   \<and> py_sum (map production (daily_selected data a b))
       = py_sum (map production (daily_selected data b a))
   \<and> avg_temperature (daily_selected data a b) = avg_temperature (daily_selected data b a)
   \<and> create_daily_report data a b = create_daily_report data b a"
proof -
  have p: "daily_period a b = daily_period b a" by (rule daily_period_sym)
  have s: "daily_selected data a b = daily_selected data b a"
    unfolding daily_selected_def p ..
  have r: "create_daily_report data a b = create_daily_report data b a"
    unfolding create_daily_report_def p s ..
  show ?thesis using p s r by simp
qed

subsection \<open>Numeric text\<close>

lemma dropWhile_all: "list_all P xs \<Longrightarrow> dropWhile P (xs @ ys) = dropWhile P ys"
  by (simp add: list_all_iff dropWhile_append2)

lemma strip_trailing:
  assumes "list_all py_isspace r"
  shows "rev (dropWhile py_isspace (rev (xs @ r))) = rev (dropWhile py_isspace (rev xs))"
proof -
  have "list_all py_isspace (rev r)" using assms by (simp add: list_all_iff)
  then show ?thesis by (simp add: dropWhile_all)
qed

lemma strip_surrounded:
  assumes l: "list_all py_isspace l" and r: "list_all py_isspace r"
  shows "strip (l @ t @ r) = strip t"
proof -
  have a: "dropWhile py_isspace (l @ t @ r) = dropWhile py_isspace (t @ r)"
    using l by (rule dropWhile_all)
  show ?thesis
  proof (cases "list_all py_isspace t")
    case True
    then have "list_all py_isspace (t @ r)" using r by simp
    then have e1: "dropWhile py_isspace (t @ r) = []" by (simp add: list_all_iff)
    have e2: "dropWhile py_isspace t = []" using True by (simp add: list_all_iff)
    show ?thesis unfolding strip_def a e1 e2 ..
  next
    case False
    then obtain x where "x \<in> set t" "\<not> py_isspace x" by (auto simp: list_all_iff)
    then have "dropWhile py_isspace (t @ r) = dropWhile py_isspace t @ r"
      by (rule dropWhile_append1)
    then show ?thesis by (simp only: strip_def a strip_trailing[OF r])
  qed
qed

lemma replace_char_single: "replace_char a [b] s = map (\<lambda>c. if c = a then b else c) s"
  by (induction s) (simp_all add: replace_char_def)

lemma strip_replace_char:
  assumes "\<not> py_isspace a" "\<not> py_isspace b"
  shows "strip (replace_char a [b] s) = replace_char a [b] (strip s)"
proof -
  let ?f = "\<lambda>c. if c = a then b else c"
  have p: "py_isspace \<circ> ?f = py_isspace" using assms by (auto simp: fun_eq_iff)
  have d: "dropWhile py_isspace (map ?f xs) = map ?f (dropWhile py_isspace xs)" for xs
    by (simp add: dropWhile_map p)
  show ?thesis
    by (simp only: strip_def replace_char_single d rev_map)
qed

lemma replace_char_idem:
  "a \<noteq> b \<Longrightarrow> replace_char a [b] (replace_char a [b] s) = replace_char a [b] s"
  by (simp add: replace_char_single)

lemma space_facts:
  "py_isspace (CHR 0xA0)" "py_isspace CHR '' ''" "\<not> py_isspace CHR '',''" "\<not> py_isspace CHR ''.''"
  by (simp_all add: py_isspace_def)

lemma normal_form_comma:
  "replace_char CHR '','' ''.'' (strip (replace_char CHR '','' ''.'' t)) =
   replace_char CHR '','' ''.'' (strip t)"
  by (simp add: strip_replace_char space_facts replace_char_idem)

text \<open>
  C6. The normalizers of Task E and Task F drop the whitespace around a token (the
  no-break space included), map the empty string to zero, and give the same value for a
  token written with a comma and the same token written with a dot; \<open>19,95\<close> and
  \<open>19.95\<close> give the same number.
\<close>

theorem numeric_normalizer:
  "(list_all py_isspace l \<and> list_all py_isspace r \<longrightarrow>
      parse_wh (Some (l @ t @ r)) = parse_wh (Some t) \<and> parse_float (l @ t @ r) = parse_float t)
   \<and> py_isspace (CHR 0xA0)
   \<and> parse_wh (Some []) = Inr (Finite 0) \<and> parse_wh None = Inr (Finite 0)
   \<and> parse_float [] = Finite 0
   \<and> parse_wh (Some (replace_char CHR '','' ''.'' t)) = parse_wh (Some t)
   \<and> parse_float (replace_char CHR '','' ''.'' t) = parse_float t
   \<and> parse_wh (Some ''19,95'') = parse_wh (Some ''19.95'')
   \<and> parse_float ''19,95'' = parse_float ''19.95''"
proof -
  have trim: "parse_wh (Some (l @ t @ r)) = parse_wh (Some t) \<and> parse_float (l @ t @ r) = parse_float t"
    if "list_all py_isspace l \<and> list_all py_isspace r"
    using that by (simp add: parse_wh_def parse_float_def strip_surrounded)
  have empty: "parse_wh (Some []) = Inr (Finite 0)" "parse_wh None = Inr (Finite 0)"
    by (simp_all add: parse_wh_def strip_def replace_char_def)
  have strip_nil: "strip [] = []" by (simp add: strip_def)
  have float_nil: "py_float [] = None" by (simp add: py_float_def)
  have empty_f: "parse_float [] = Finite 0"
    by (simp add: parse_float_def strip_nil replace_char_def float_nil)
  have sep: "parse_wh (Some (replace_char CHR '','' ''.'' t)) = parse_wh (Some t)"
    "parse_float (replace_char CHR '','' ''.'' t) = parse_float t" for t
    by (simp_all add: parse_wh_def parse_float_def normal_form_comma)
  have r: "replace_char CHR '','' ''.'' ''19,95'' = ''19.95''" by (simp add: replace_char_def)
  have ex: "parse_wh (Some ''19,95'') = parse_wh (Some ''19.95'')"
    "parse_float ''19,95'' = parse_float ''19.95''"
    using sep[of "''19,95''"] by (simp_all only: r)
  show ?thesis
    using trim empty empty_f sep ex space_facts(1) by simp
qed

theorem numeric_normalizer_witness:
  "list_all py_isspace [CHR 0xA0, CHR '' ''] \<and> list_all py_isspace [CHR 0x09]
   \<and> parse_wh (Some ([CHR 0xA0, CHR '' ''] @ ''19,95'' @ [CHR 0x09])) = parse_wh (Some ''19,95'')
   \<and> parse_wh (Some ''19,95'') = Inr (Finite (5615425785377587 / 281474976710656))
   \<and> parse_wh (Some ''19.95'') = Inr (Finite (5615425785377587 / 281474976710656))
   \<and> parse_float ''19,95'' = Finite (5615425785377587 / 281474976710656)"
proof -
  have s: "list_all py_isspace [CHR 0xA0, CHR '' ''] \<and> list_all py_isspace [CHR 0x09]"
    by (simp add: py_isspace_def)
  have v: "parse_wh (Some ''19.95'') = Inr (Finite (5615425785377587 / 281474976710656))"
    by code_simp
  have w: "parse_float ''19.95'' = Finite (5615425785377587 / 281474976710656)"
    by code_simp
  show ?thesis
    using numeric_normalizer [of "[CHR 0xA0, CHR '' '']" "[CHR 0x09]" "''19,95''"] s v w
    by simp
qed




subsection \<open>Column detection\<close>

lemma find_removeAll: "\<not> P x \<Longrightarrow> find P (removeAll x ys) = find P ys"
  by (induction ys) auto

lemma find_dict_keys: "find P (dict_keys xs) = find P xs"
  by (induction xs) (simp_all add: find_removeAll)

lemma map_of_snoc:
  "map_of (cols @ [(q, v)]) p =
     (case map_of cols p of Some w \<Rightarrow> Some w | None \<Rightarrow> if p = q then Some v else None)"
  by (simp add: map_of_append map_add_def split: option.splits)

lemma map_of_add_phase:
  assumes "p \<in> set [1, 2, 3]"
  shows "map_of (add_phase cols fn) p =
     (case map_of cols p of
        Some w \<Rightarrow> Some w
      | None \<Rightarrow> if phase_of (normalize_header fn) = Some p then Some fn else None)"
proof (cases "phase_of (normalize_header fn)")
  case None
  then show ?thesis by (simp add: add_phase_def split: option.splits)
next
  case (Some q)
  show ?thesis
  proof (cases "q \<in> set [1, 2, 3] \<and> map_of cols q = None")
    case True
    then show ?thesis using Some assms
      by (auto simp: add_phase_def map_of_snoc simp del: map_of_append split: option.splits)
  next
    case False
    then show ?thesis using Some assms by (auto simp: add_phase_def split: option.splits)
  qed
qed

lemma map_of_collect_from:
  assumes "p \<in> set [1, 2, 3]"
  shows "map_of (foldl (\<lambda>cols fn. if candidate (normalize_header fn) then add_phase cols fn else cols)
                  cols keys) p =
     (case map_of cols p of
        Some w \<Rightarrow> Some w
      | None \<Rightarrow> find (\<lambda>fn. candidate (normalize_header fn) \<and> phase_of (normalize_header fn) = Some p)
                 keys)"
proof (induction keys arbitrary: cols)
  case Nil
  show ?case by (simp split: option.splits)
next
  case (Cons fn keys)
  show ?case
    by (simp add: Cons.IH map_of_add_phase[OF assms] split: option.splits)
qed

lemma map_of_collect_phases:
  assumes "p \<in> set [1, 2, 3]"
  shows "map_of (collect_phases candidate keys) p =
     find (\<lambda>fn. candidate (normalize_header fn) \<and> phase_of (normalize_header fn) = Some p) keys"
  unfolding collect_phases_def map_of_collect_from[OF assms] by simp

lemma find_rev_last:
  "find P (rev xs) = (if filter P xs = [] then None else Some (last (filter P xs)))"
  by (induction xs rule: rev_induct) simp_all

lemma find_filter_head: "filter P xs = y # ys \<Longrightarrow> find P xs = Some y"
  by (induction xs) (auto split: if_splits)

lemma set_replace_str_empty: "set (replace_str old [] s) \<subseteq> set s"
proof (induction old "[] :: string" s rule: replace_str.induct)
  case (1 old)
  show ?case by simp
next
  case (2 old c cs)
  show ?case
  proof (cases "old \<noteq> [] \<and> take (length old) (c # cs) = old")
    case True
    have "set (drop (length old) (c # cs)) \<subseteq> set (c # cs)" by (rule set_drop_subset)
    then show ?thesis using True 2(1) by auto
  next
    case False
    then show ?thesis using 2(2) by auto
  qed
qed

lemma normalize_header_no_newline: "CHR 0x0A \<notin> set (normalize_header h)"
proof -
  have "py_isspace (CHR 0x0A)" by (simp add: py_isspace_def)
  then have "CHR 0x0A \<notin> set (filter (\<lambda>c. \<not> (py_isspace c \<or> c \<in> set ''-[]()_'')) (lower (strip h)))"
    by simp
  then show ?thesis
    unfolding normalize_header_def Let_def using set_replace_str_empty by blast
qed

lemma phase_of_last_digit:
  "phase_of (normalize_header h) =
     (if filter (\<lambda>c. c \<in> set ''123'') (normalize_header h) = [] then None
      else Some (nat (digit_val (last (filter (\<lambda>c. c \<in> set ''123'') (normalize_header h))))))"
proof -
  have tw: "takeWhile (\<lambda>c. c \<noteq> CHR 0x0A) (normalize_header h) = normalize_header h"
    using normalize_header_no_newline[of h] by (auto simp: takeWhile_eq_all_conv)
  show ?thesis
    unfolding phase_of_def phase_re_match_def tw find_rev_last by simp
qed

text \<open>
  C5 (as amended). When the Column Detector succeeds, the timestamp column is the first
  header whose normalized form contains \<open>timestamp\<close> or \<open>datetime\<close> or equals \<open>time\<close>
  or \<open>date\<close>; each phase of each role is mapped to the first candidate header of that
  role whose phase number is that phase, later ones being ignored; and the phase number
  of a header is the last of the digits 1, 2, 3 in its normalized text.
\<close>

theorem detect_columns_spec:
  "(detect_columns fieldnames = Inr (ts, cons_cols, prod_cols) \<longrightarrow>
      find (\<lambda>fn. is_timestamp_header (normalize_header fn)) fieldnames = Some ts
      \<and> (p \<in> set [1, 2, 3] \<longrightarrow>
           map_of cons_cols p =
             find (\<lambda>fn. is_consumption_header (normalize_header fn)
                        \<and> phase_of (normalize_header fn) = Some p) fieldnames
           \<and> map_of prod_cols p =
             find (\<lambda>fn. is_production_header (normalize_header fn)
                        \<and> phase_of (normalize_header fn) = Some p) fieldnames))
   \<and> phase_of (normalize_header h) =
       (if filter (\<lambda>c. c \<in> set ''123'') (normalize_header h) = [] then None
        else Some (nat (digit_val (last (filter (\<lambda>c. c \<in> set ''123'') (normalize_header h))))))"
proof -
  have main: "find (\<lambda>fn. is_timestamp_header (normalize_header fn)) fieldnames = Some ts
      \<and> (p \<in> set [1, 2, 3] \<longrightarrow>
           map_of cons_cols p =
             find (\<lambda>fn. is_consumption_header (normalize_header fn)
                        \<and> phase_of (normalize_header fn) = Some p) fieldnames
           \<and> map_of prod_cols p =
             find (\<lambda>fn. is_production_header (normalize_header fn)
                        \<and> phase_of (normalize_header fn) = Some p) fieldnames)"
    if ok: "detect_columns fieldnames = Inr (ts, cons_cols, prod_cols)"
  proof -
    let ?keys = "dict_keys fieldnames"
    let ?cands = "filter (\<lambda>fn. is_timestamp_header (normalize_header fn)) ?keys"
    from ok obtain rest where c: "?cands = ts # rest"
      and cc: "cons_cols = collect_phases is_consumption_header ?keys"
      and pc: "prod_cols = collect_phases is_production_header ?keys"
      by (auto simp: detect_columns_def Let_def split: if_splits list.splits)
    have "find (\<lambda>fn. is_timestamp_header (normalize_header fn)) ?keys = Some ts"
      using c by (rule find_filter_head)
    then have t: "find (\<lambda>fn. is_timestamp_header (normalize_header fn)) fieldnames = Some ts"
      by (simp only: find_dict_keys)
    show ?thesis
      using t by (simp add: cc pc map_of_collect_phases find_dict_keys)
  qed
  show ?thesis using main phase_of_last_digit by blast
qed

theorem detect_columns_spec_witness:
  "detect_columns week_header =
     Inr (''Time'',
          [(1, ''Consumption phase 1 Wh''), (2, ''Consumption phase 2 Wh''),
           (3, ''Consumption phase 3 Wh'')],
          [(1, ''Production phase 1 Wh''), (2, ''Production phase 2 Wh''),
           (3, ''Production phase 3 Wh'')])
   \<and> (2::nat) \<in> set [1, 2, 3]
   \<and> find (\<lambda>fn. is_timestamp_header (normalize_header fn)) week_header = Some ''Time''
   \<and> find (\<lambda>fn. is_consumption_header (normalize_header fn)
                \<and> phase_of (normalize_header fn) = Some 2) week_header
       = Some ''Consumption phase 2 Wh''
   \<and> find (\<lambda>fn. is_production_header (normalize_header fn)
                \<and> phase_of (normalize_header fn) = Some 2) week_header
       = Some ''Production phase 2 Wh''
   \<and> normalize_header ''ConsumptionPhase1'' = normalize_header ''Consumption phase 1 Wh''"
proof -
  have d: "detect_columns week_header =
     Inr (''Time'',
          [(1, ''Consumption phase 1 Wh''), (2, ''Consumption phase 2 Wh''),
           (3, ''Consumption phase 3 Wh'')],
          [(1, ''Production phase 1 Wh''), (2, ''Production phase 2 Wh''),
           (3, ''Production phase 3 Wh'')])"
    by code_simp
  have m: "(2::nat) \<in> set [1, 2, 3]" by simp
  have n: "normalize_header ''ConsumptionPhase1'' = normalize_header ''Consumption phase 1 Wh''"
    by code_simp
  have c: "map_of [(1::nat, ''Consumption phase 1 Wh''), (2, ''Consumption phase 2 Wh''),
           (3, ''Consumption phase 3 Wh'')] 2 = Some ''Consumption phase 2 Wh''"
    "map_of [(1::nat, ''Production phase 1 Wh''), (2, ''Production phase 2 Wh''),
           (3, ''Production phase 3 Wh'')] 2 = Some ''Production phase 2 Wh''"
    by simp_all
  show ?thesis
    using detect_columns_spec [of week_header "''Time''" _ _ 2 "[]", unfolded d] m n c d
    by (simp only: simp_thms)
qed

text \<open>
  The header \<open>Cons L1 phase 3\<close> has the digit 1 before the digit 3; the detector files
  it under phase 3, and phase 1 goes to the header that follows.
\<close>

theorem detect_columns_spec_counterexample:
  "detect_columns [''Time'', ''Cons L1 phase 3'', ''Cons phase 1'', ''Cons phase 2'',
                   ''Prod phase 1'', ''Prod phase 2'', ''Prod phase 3'']
     = Inr (''Time'',
            [(3, ''Cons L1 phase 3''), (1, ''Cons phase 1''), (2, ''Cons phase 2'')],
            [(1, ''Prod phase 1''), (2, ''Prod phase 2''), (3, ''Prod phase 3'')])
   \<and> normalize_header ''Cons L1 phase 3'' = ''consl1phase3''
   \<and> find (\<lambda>c. c \<in> set ''123'') (normalize_header ''Cons L1 phase 3'') = Some CHR ''1''"
  by code_simp

subsection \<open>Timestamps\<close>











subsection \<open>Reading the files\<close>




lemma read_data_d_good:
  "map (read_row_d L) rows = map (\<lambda>r. Some (Inr r)) rs \<Longrightarrow> read_data_d L rows = Inr rs"
proof (induction rows arbitrary: rs)
  case Nil
  then show ?case by simp
next
  case (Cons raw rows)
  then obtain r rs' where rs: "rs = r # rs'" by (cases rs) auto
  then have "read_row_d L raw = Some (Inr r)" "map (read_row_d L) rows = map (\<lambda>r. Some (Inr r)) rs'"
    using Cons.prems by simp_all
  then show ?case using Cons.IH[of rs'] rs by simp
qed








end
